theory Spec2Isabelle
  imports Complex_Main "HOL-Library.Sublist"
begin

section \<open>Python values shared by the modules\<close>

text \<open>
  The development embeds the stateful parts of the stock dashboard: the background
  ticker of \<^verbatim>\<open>live_ticker.py\<close>, the price lookup of \<^verbatim>\<open>fetch_stock.py\<close>, the
  recommendation queries of \<^verbatim>\<open>recommender.py\<close> and the chat router of \<^verbatim>\<open>app.py\<close>.
  Python floats are idealised as \<^typ>\<open>real\<close>, text is a \<^typ>\<open>string\<close> of bytes (UTF-8;
  case and whitespace operations act on ASCII), and every exception of the source is a
  value of \<open>py_error\<close>: a function
  that can raise returns \<open>py_error + 'a\<close>, and a \<^verbatim>\<open>try/except Exception\<close> is a case
  distinction on that sum.
\<close>

datatype py_error =
    ZeroDivisionError
  | KeyError
  | TypeError
  | AttributeError
  | RequestException
  | JSONDecodeError
  | SourceException

subsection \<open>str.replace, str.endswith\<close>

text \<open>
  \<^verbatim>\<open>s.replace(old, new)\<close> replaces the non-overlapping occurrences of \<open>old\<close> from the
  left. For an empty \<open>old\<close> Python puts \<open>new\<close> before every character and at the end.
\<close>

function replace_scan :: "string \<Rightarrow> string \<Rightarrow> string \<Rightarrow> string" where
  "replace_scan old new [] = []"
| "replace_scan old new (c # cs) =
     (if old \<noteq> [] \<and> prefix old (c # cs)
      then new @ replace_scan old new (drop (length old) (c # cs))
      else c # replace_scan old new cs)"
  by pat_completeness auto
termination
  by (relation "measure (\<lambda>(old, new, s). length s)") (auto simp: neq_Nil_conv)

definition str_replace :: "string \<Rightarrow> string \<Rightarrow> string \<Rightarrow> string" where
  "str_replace old new s =
     (if old = [] then new @ concat (map (\<lambda>c. c # new) s) else replace_scan old new s)"

definition endswith :: "string \<Rightarrow> string \<Rightarrow> bool" where
  "endswith s suf = suffix suf s"

section \<open>The ticker refresh loop (live_ticker.py)\<close>

subsection \<open>Data\<close>

text \<open>
  A quote is the dict \<^verbatim>\<open>{'price': ..., 'change': ...}\<close>; a snapshot is the dict
  \<^verbatim>\<open>st.session_state.live_prices\<close> from bare symbol to quote. \<open>info\<close> holds the three
  fields the code reads from \<^verbatim>\<open>yf.Ticker(symbol).info\<close>; \<open>None\<close> is a missing key or a
  \<^verbatim>\<open>None\<close> value. The Quote Source is a function from the symbol looked up to what the
  \<^verbatim>\<open>.info\<close> access does: it raises or returns an \<open>info\<close>.
\<close>

record quote =
  price :: real
  change :: real

type_synonym snapshot = "string \<rightharpoonup> quote"

record info =
  regularMarketPrice :: "real option"
  currentPrice :: "real option"
  previousClose :: "real option"

type_synonym quote_source = "string \<Rightarrow> py_error + info"

text \<open>
  \<^verbatim>\<open>random.random()\<close> is a stream of draws: \<open>rnd i\<close> is the value of the \<open>i\<close>-th call, and
  the position of the next draw is threaded through the code.
\<close>

type_synonym rng = "nat \<Rightarrow> real"

definition symbols :: "string list" where
  "symbols = [''RELIANCE.NS'', ''TCS.NS'', ''HDFCBANK.NS'', ''INFY.NS'',
              ''TATAMOTORS.NS'', ''WIPRO.NS'', ''BAJFINANCE.NS'']"

definition symbol_name :: "string \<Rightarrow> string" where
  "symbol_name symbol = str_replace ''.BO'' [] (str_replace ''.NS'' [] symbol)"

subsection \<open>One symbol\<close>

text \<open>
  Lines 23 to 44, the body of the inner \<^verbatim>\<open>try\<close>. Python evaluates the default of
  \<^verbatim>\<open>.get('price', 1000 + random.random() * 1000)\<close> before the lookup, so the fallback
  branch always makes three draws. The division raises when \<open>prev_close\<close> is 0.
\<close>

definition try_symbol ::
    "snapshot \<Rightarrow> quote_source \<Rightarrow> rng \<Rightarrow> nat \<Rightarrow> string \<Rightarrow> py_error + (quote \<times> nat)" where
  "try_symbol live src rnd k symbol =
     (case src symbol of
        Inl e \<Rightarrow> Inl e
      | Inr nfo \<Rightarrow>
          (case (regularMarketPrice nfo, previousClose nfo) of
             (Some p, Some prev_close) \<Rightarrow>
               if prev_close = 0 then Inl ZeroDivisionError
               else Inr (\<lparr>price = p, change = ((p - prev_close) / prev_close) * 100\<rparr>, k)
           | _ \<Rightarrow>
               let dflt = 1000 + rnd k * 1000;
                   existing_price =
                     (case live (symbol_name symbol) of None \<Rightarrow> dflt | Some q \<Rightarrow> price q)
               in Inr (\<lparr>price = existing_price * (1 + (rnd (k + 1) - 0.5) * 0.01),
                        change = (rnd (k + 2) - 0.5) * 2\<rparr>, k + 3)))"

text \<open>Lines 22 to 51: the inner \<^verbatim>\<open>try\<close> with its \<^verbatim>\<open>except Exception\<close> placeholder.\<close>

definition process_symbol ::
    "snapshot \<Rightarrow> quote_source \<Rightarrow> rng \<Rightarrow> nat \<Rightarrow> string \<Rightarrow> quote \<times> nat" where
  "process_symbol live src rnd k symbol =
     (case try_symbol live src rnd k symbol of
        Inr r \<Rightarrow> r
      | Inl e \<Rightarrow>
          (\<lparr>price = 1000 + rnd k * 1000, change = (rnd (k + 1) - 0.5) * 2\<rparr>, k + 2))"

text \<open>Lines 21 to 51: the \<^verbatim>\<open>for\<close> loop filling the cycle-local dict \<open>prices\<close>.\<close>

fun collect_prices ::
    "snapshot \<Rightarrow> quote_source \<Rightarrow> rng \<Rightarrow> nat \<Rightarrow> string list \<Rightarrow> snapshot \<Rightarrow> snapshot \<times> nat" where
  "collect_prices live src rnd k [] prices = (prices, k)"
| "collect_prices live src rnd k (s # ss) prices =
     (case process_symbol live src rnd k s of
        (q, k') \<Rightarrow> collect_prices live src rnd k' ss (prices(symbol_name s \<mapsto> q)))"

subsection \<open>One cycle and the loop\<close>

text \<open>
  What the surroundings do during one cycle: the value of the stop flag read at the top,
  the Quote Source, and whether the assignment to \<^verbatim>\<open>st.session_state.live_prices\<close>
  raises (the only statement of the outer \<^verbatim>\<open>try\<close> not covered by the inner one).
\<close>

record cycle_env =
  stop_ticker :: bool
  source :: quote_source
  assign_raises :: bool

datatype event = CheckStop bool | Publish | Sleep nat

text \<open>Lines 20 to 55, the body of the outer \<^verbatim>\<open>try\<close>: the new snapshot or the exception.\<close>

definition try_cycle ::
    "cycle_env \<Rightarrow> rng \<Rightarrow> nat \<Rightarrow> snapshot \<Rightarrow> (py_error + snapshot) \<times> nat" where
  "try_cycle env rnd k live =
     (case collect_prices live (source env) rnd k symbols Map.empty of
        (prices, k') \<Rightarrow>
          if assign_raises env then (Inl SourceException, k') else (Inr prices, k'))"

text \<open>Lines 19 to 59: the outer \<^verbatim>\<open>try\<close> with its handler, as (snapshot, draws, events).\<close>

definition refresh_cycle ::
    "cycle_env \<Rightarrow> rng \<Rightarrow> nat \<Rightarrow> snapshot \<Rightarrow> snapshot \<times> nat \<times> event list" where
  "refresh_cycle env rnd k live =
     (case try_cycle env rnd k live of
        (Inr prices, k') \<Rightarrow> (prices, k', [Publish, Sleep 60])
      | (Inl e, k') \<Rightarrow> (live, k', [Sleep 30]))"

text \<open>
  Lines 18 to 59: the \<^verbatim>\<open>while\<close> loop, with fuel for the number of flag checks it may
  make. \<open>envs c\<close> is the surroundings of cycle \<open>c\<close>. A run either returns (the flag was
  set) or is still running when the fuel is used up.
\<close>

datatype status = Returned | StillRunning

record run =
  outcome :: status
  live_prices :: snapshot
  trace :: "event list"

fun update_live_prices ::
    "nat \<Rightarrow> (nat \<Rightarrow> cycle_env) \<Rightarrow> rng \<Rightarrow> nat \<Rightarrow> nat \<Rightarrow> snapshot \<Rightarrow> run" where
  "update_live_prices 0 envs rnd c k live =
     \<lparr>outcome = StillRunning, live_prices = live, trace = []\<rparr>"
| "update_live_prices (Suc n) envs rnd c k live =
     (if stop_ticker (envs c)
      then \<lparr>outcome = Returned, live_prices = live, trace = [CheckStop True]\<rparr>
      else
        (case refresh_cycle (envs c) rnd k live of
           (live', k', evs) \<Rightarrow>
             (let r = update_live_prices n envs rnd (Suc c) k' live'
              in r\<lparr>trace := CheckStop False # evs @ trace r\<rparr>)))"

subsection \<open>Sample surroundings\<close>

text \<open>
  Concrete inputs on which the theorems below are evaluated: a draw stream that always
  returns one half, a Quote Source that raises for every symbol, one that delivers a
  price of 0 with a previous close of 100, and a prior snapshot with one entry.
\<close>

definition half_rng :: rng where
  "half_rng = (\<lambda>i. 1 / 2)"

definition failing_source :: quote_source where
  "failing_source = (\<lambda>s. Inl SourceException)"

definition zero_price_source :: quote_source where
  "zero_price_source =
     (\<lambda>s. Inr \<lparr>regularMarketPrice = Some 0, currentPrice = None, previousClose = Some 100\<rparr>)"

definition failing_env :: cycle_env where
  "failing_env = \<lparr>stop_ticker = False, source = failing_source, assign_raises = False\<rparr>"

definition zero_price_env :: cycle_env where
  "zero_price_env = \<lparr>stop_ticker = False, source = zero_price_source, assign_raises = False\<rparr>"

definition prior_snapshot :: snapshot where
  "prior_snapshot = [''RELIANCE'' \<mapsto> \<lparr>price = 50, change = 0\<rparr>]"

definition sample_envs :: "nat \<Rightarrow> cycle_env" where
  "sample_envs c = \<lparr>stop_ticker = (c = 2), source = failing_source, assign_raises = (c = 1)\<rparr>"

subsection \<open>The cycle on a store of dict objects\<close>

text \<open>
  To see what a reader of \<^verbatim>\<open>st.session_state.live_prices\<close> can observe while a cycle
  runs, the dicts are objects in a heap: \<open>live_ref\<close> is the object the session state refers
  to, \<open>fresh\<close> the next unused address. \<^verbatim>\<open>prices = {}\<close> (line 20) allocates a new object,
  \<^verbatim>\<open>prices[symbol_name] = ...\<close> (lines 41 and 48) mutates it in place, and line 54 makes
  the session state refer to it. \<open>cycle_stores\<close> lists the store after each of these
  statements, in order; the last entry is missing when the assignment raises.
\<close>

record store =
  heap :: "nat \<Rightarrow> snapshot"
  fresh :: nat
  live_ref :: nat

definition reader_view :: "store \<Rightarrow> snapshot" where
  "reader_view st = heap st (live_ref st)"

fun store_symbols ::
    "quote_source \<Rightarrow> rng \<Rightarrow> nat \<Rightarrow> nat \<Rightarrow> string list \<Rightarrow> store \<Rightarrow> store list" where
  "store_symbols src rnd k a [] st = []"
| "store_symbols src rnd k a (s # ss) st =
     (case process_symbol (reader_view st) src rnd k s of
        (q, k') \<Rightarrow>
          (let st' = st\<lparr>heap := (heap st)(a := (heap st a)(symbol_name s \<mapsto> q))\<rparr>
           in st' # store_symbols src rnd k' a ss st'))"

definition cycle_stores :: "cycle_env \<Rightarrow> rng \<Rightarrow> nat \<Rightarrow> store \<Rightarrow> store list" where
  "cycle_stores env rnd k st =
     (let a = fresh st;
          st0 = st\<lparr>heap := (heap st)(a := Map.empty), fresh := Suc a\<rparr>;
          sts = st0 # store_symbols (source env) rnd k a symbols st0
      in sts @ (if assign_raises env then [] else [(last sts)\<lparr>live_ref := a\<rparr>]))"

definition sample_store :: store where
  "sample_store = \<lparr>heap = (\<lambda>a. if a = 0 then prior_snapshot else Map.empty), fresh = 1, live_ref = 0\<rparr>"

section \<open>The price lookup (fetch\_stock.py)\<close>

text \<open>
  \<^verbatim>\<open>get_current_price\<close> returns a number or the string \<^verbatim>\<open>'N/A'\<close>. Python's \<^verbatim>\<open>a or b\<close> is
  \<open>a\<close> when \<open>a\<close> is truthy, that is neither \<^verbatim>\<open>None\<close> nor 0, and \<open>b\<close> otherwise; \<open>b\<close> is only
  evaluated in the second case.
\<close>

datatype price_result = Price real | NA

definition py_or :: "real option \<Rightarrow> real option \<Rightarrow> real option" where
  "py_or a b = (case a of None \<Rightarrow> b | Some x \<Rightarrow> if x = 0 then b else Some x)"

definition or_na :: "real option \<Rightarrow> price_result" where
  "or_na p = (case p of None \<Rightarrow> NA | Some x \<Rightarrow> Price x)"

text \<open>Lines 57 and 58: the \<^verbatim>\<open>.NS\<close> suffix is added unless an exchange suffix is there.\<close>

definition exchange_symbol :: "string \<Rightarrow> string" where
  "exchange_symbol symbol =
     (if \<not> endswith symbol ''.NS'' \<and> \<not> endswith symbol ''.BO'' then symbol @ ''.NS''
      else symbol)"

text \<open>Lines 56 to 77, the body of the \<^verbatim>\<open>try\<close>.\<close>

definition try_current_price :: "quote_source \<Rightarrow> string \<Rightarrow> py_error + price_result" where
  "try_current_price src symbol0 =
     (let symbol = exchange_symbol symbol0 in
      case src symbol of
        Inl e \<Rightarrow> Inl e
      | Inr nfo \<Rightarrow>
          (case regularMarketPrice nfo of
             Some p \<Rightarrow> Inr (Price p)
           | None \<Rightarrow>
               (case py_or (currentPrice nfo) (previousClose nfo) of
                  Some p \<Rightarrow> Inr (Price p)
                | None \<Rightarrow>
                    if endswith symbol ''.NS''
                    then (case src (str_replace ''.NS'' ''.BO'' symbol) of
                            Inl e \<Rightarrow> Inl e
                          | Inr bse \<Rightarrow>
                              Inr (or_na (py_or (regularMarketPrice bse) (currentPrice bse))))
                    else Inr NA)))"

text \<open>
  Lines 55 to 81: the \<^verbatim>\<open>try\<close> with its \<^verbatim>\<open>except Exception\<close>, which returns \<^verbatim>\<open>'N/A'\<close>
  (the hidden diagnostic it writes to the page is a display effect and not part of the
  result).
\<close>

definition get_current_price :: "quote_source \<Rightarrow> string \<Rightarrow> py_error + price_result" where
  "get_current_price src symbol =
     (case try_current_price src symbol of Inr r \<Rightarrow> Inr r | Inl e \<Rightarrow> Inr NA)"

definition sample_quotes :: quote_source where
  "sample_quotes =
     (\<lambda>s. if s = ''TCS.NS''
          then Inr \<lparr>regularMarketPrice = Some 3450, currentPrice = Some 3400, previousClose = None\<rparr>
          else if s = ''INFY.NS''
          then Inr \<lparr>regularMarketPrice = None, currentPrice = Some 0, previousClose = None\<rparr>
          else if s = ''INFY.BO''
          then Inr \<lparr>regularMarketPrice = None, currentPrice = Some 1520, previousClose = None\<rparr>
          else Inl SourceException)"

section \<open>The recommendation queries (recommender.py)\<close>

subsection \<open>Parsed JSON and the HTTP outcome\<close>

text \<open>
  The value \<^verbatim>\<open>response.json()\<close> returns. A \<open>JObj\<close> lists the items of a Python dict in
  order (a key occurs once). \<open>http_outcome\<close> is what \<^verbatim>\<open>requests.get\<close> does: it raises, or
  returns a response with a status code and a body, whose \<^verbatim>\<open>.json()\<close> raises when the
  body is not JSON (\<open>None\<close>).
\<close>

datatype json =
    JNull
  | JBool bool
  | JNum int
  | JStr string
  | JArr "json list"
  | JObj "(string \<times> json) list"

datatype http_outcome = ConnectionFails | Response nat "json option"

definition bind_e :: "py_error + 'a \<Rightarrow> ('a \<Rightarrow> py_error + 'b) \<Rightarrow> py_error + 'b" where
  "bind_e m f = (case m of Inl e \<Rightarrow> Inl e | Inr x \<Rightarrow> f x)"

text \<open>\<^verbatim>\<open>x[key]\<close> with a string key: only a dict can be subscripted so.\<close>

definition getitem :: "json \<Rightarrow> string \<Rightarrow> py_error + json" where
  "getitem x key =
     (case x of
        JObj kvs \<Rightarrow> (case map_of kvs key of None \<Rightarrow> Inl KeyError | Some v \<Rightarrow> Inr v)
      | _ \<Rightarrow> Inl TypeError)"

text \<open>
  \<^verbatim>\<open>for i in x\<close>: a list gives its elements, a dict its keys, a string its characters;
  nothing else can be iterated.
\<close>

definition py_iter :: "json \<Rightarrow> py_error + json list" where
  "py_iter x =
     (case x of
        JArr xs \<Rightarrow> Inr xs
      | JObj kvs \<Rightarrow> Inr (map (\<lambda>kv. JStr (fst kv)) kvs)
      | JStr s \<Rightarrow> Inr (map (\<lambda>c. JStr [c]) s)
      | _ \<Rightarrow> Inl TypeError)"

subsection \<open>The two queries\<close>

text \<open>Lines 22 to 24 (and 46 to 48): the loop appending \<^verbatim>\<open>i['company_name']\<close>.\<close>

fun company_names :: "json list \<Rightarrow> py_error + json list" where
  "company_names [] = Inr []"
| "company_names (i # rest) =
     bind_e (getitem i ''company_name'') (\<lambda>stock.
     bind_e (company_names rest) (\<lambda>names. Inr (stock # names)))"

text \<open>
  The body the two functions share; they differ in the key of the list only
  (\<^verbatim>\<open>"top_gainers"\<close> in line 21, \<^verbatim>\<open>"top_losers"\<close> in line 44). There is no
  \<^verbatim>\<open>try\<close> in the module.
\<close>

definition recommendations_of :: "string \<Rightarrow> http_outcome \<Rightarrow> py_error + json list" where
  "recommendations_of list_key out =
     (case out of
        ConnectionFails \<Rightarrow> Inl RequestException
      | Response status_code body \<Rightarrow>
          if status_code = 200
          then bind_e (case body of None \<Rightarrow> Inl JSONDecodeError | Some r \<Rightarrow> Inr r) (\<lambda>response.
               bind_e (getitem response ''trending_stocks'') (\<lambda>trending_stocks.
               bind_e (getitem trending_stocks list_key) (\<lambda>lst.
               bind_e (py_iter lst) company_names)))
          else Inr [])"

definition get_stockrecommendations :: "http_outcome \<Rightarrow> py_error + json list" where
  "get_stockrecommendations out = recommendations_of ''top_gainers'' out"

definition get_sellrecommendations :: "http_outcome \<Rightarrow> py_error + json list" where
  "get_sellrecommendations out = recommendations_of ''top_losers'' out"

text \<open>Sample payloads: a trending list with one gainer and no loser, and an empty object.\<close>

definition sample_payload :: json where
  "sample_payload =
     JObj [(''trending_stocks'',
            JObj [(''top_gainers'', JArr [JObj [(''company_name'', JStr ''Tata Steel'')]]),
                  (''top_losers'', JArr [])])]"

definition empty_payload :: json where
  "empty_payload = JObj []"

section \<open>The chat router (app.py)\<close>

subsection \<open>String operations\<close>

text \<open>
  \<^verbatim>\<open>str.lower\<close>, \<^verbatim>\<open>str.upper\<close>, the substring test \<^verbatim>\<open>sub in s\<close>, \<^verbatim>\<open>str.split()\<close> on runs
  of whitespace and \<^verbatim>\<open>str.strip(chars)\<close>, on ASCII text.
\<close>

definition lower_char :: "char \<Rightarrow> char" where
  "lower_char c =
     (case map_of (zip ''ABCDEFGHIJKLMNOPQRSTUVWXYZ'' ''abcdefghijklmnopqrstuvwxyz'') c of
        Some d \<Rightarrow> d | None \<Rightarrow> c)"

definition upper_char :: "char \<Rightarrow> char" where
  "upper_char c =
     (case map_of (zip ''abcdefghijklmnopqrstuvwxyz'' ''ABCDEFGHIJKLMNOPQRSTUVWXYZ'') c of
        Some d \<Rightarrow> d | None \<Rightarrow> c)"

definition lower :: "string \<Rightarrow> string" where
  "lower s = map lower_char s"

definition upper :: "string \<Rightarrow> string" where
  "upper s = map upper_char s"

fun str_in :: "string \<Rightarrow> string \<Rightarrow> bool" where
  "str_in sub [] = (sub = [])"
| "str_in sub (c # cs) = (prefix sub (c # cs) \<or> str_in sub cs)"

definition is_space :: "char \<Rightarrow> bool" where
  "is_space c = (c \<in> set [CHR 0x09, CHR 0x0A, CHR 0x0B, CHR 0x0C, CHR 0x0D,
                           CHR 0x1C, CHR 0x1D, CHR 0x1E, CHR 0x1F, CHR 0x20])"

fun split_from :: "string \<Rightarrow> string \<Rightarrow> string list" where
  "split_from word [] = (if word = [] then [] else [word])"
| "split_from word (c # cs) =
     (if is_space c
      then (if word = [] then split_from [] cs else word # split_from [] cs)
      else split_from (word @ [c]) cs)"

definition split :: "string \<Rightarrow> string list" where
  "split s = split_from [] s"

definition strip :: "string \<Rightarrow> string \<Rightarrow> string" where
  "strip chars s =
     rev (dropWhile (\<lambda>c. c \<in> set chars) (rev (dropWhile (\<lambda>c. c \<in> set chars) s)))"

definition newline :: string where
  "newline = [CHR 0x0A]"

subsection \<open>Surroundings of one turn\<close>

text \<open>
  A news item is a dict of which the router reads three keys; a key is absent, holds
  \<^verbatim>\<open>None\<close>, or holds text. The surroundings of a turn: whether
  \<^verbatim>\<open>display_stock_chart\<close> succeeds for a candidate symbol (it catches its own
  exceptions and returns a bool), the outcome of the \<open>k\<close>-th \<^verbatim>\<open>requests.get\<close> of the turn,
  what \<^verbatim>\<open>fetch_news()\<close> does, and Python's \<^verbatim>\<open>str()\<close> on a JSON value as used by f-strings.
\<close>

datatype field = Absent | Null | Text string

record news_item =
  title :: field
  description :: field
  url :: field

record router_env =
  chart_ok :: "string \<Rightarrow> bool"
  http :: "nat \<Rightarrow> http_outcome"
  news :: "py_error + news_item list"
  py_str :: "json \<Rightarrow> string"

text \<open>What a turn shows: chart lookups, \<^verbatim>\<open>st.markdown\<close>, \<^verbatim>\<open>st.success\<close>, \<^verbatim>\<open>st.error\<close>.\<close>

datatype ui = Chart string | Markdown string | Success json | Error json

subsection \<open>Intent classification\<close>

datatype intent =
    ChartLookup
  | BuyRecommendation
  | SellRecommendation
  | MarketSummary
  | NewsQuery
  | Fallback

text \<open>The conditions of the \<^verbatim>\<open>if/elif\<close> chain of lines 230, 244, 261, 268 and 290, in order.\<close>

definition classify :: "string \<Rightarrow> intent" where
  "classify user_input =
     (let lower_input = lower user_input in
      if str_in ''chart'' lower_input \<or> str_in ''price'' lower_input then ChartLookup
      else if list_ex (\<lambda>word. str_in word lower_input)
                [''buy'', ''recommend'', ''top pick'', ''top stocks'', ''which stock'']
      then BuyRecommendation
      else if list_ex (\<lambda>word. str_in word lower_input)
                [''sell'', ''dump'', ''what to avoid'', ''exit'']
      then SellRecommendation
      else if list_ex (\<lambda>word. str_in word lower_input)
                [''market summary'', ''today's trend'', ''market today'', ''what's the trend'']
      then MarketSummary
      else if str_in ''news'' lower_input \<or> str_in ''latest'' lower_input then NewsQuery
      else Fallback)"

text \<open>
  The rule as the specification words it (section 4.2): each intent has a trigger on the
  lower-cased input, and the first intent of the priority order whose trigger holds wins.
\<close>

definition spec_priority :: "intent list" where
  "spec_priority =
     [ChartLookup, BuyRecommendation, SellRecommendation, MarketSummary, NewsQuery, Fallback]"

fun spec_trigger :: "intent \<Rightarrow> string \<Rightarrow> bool" where
  "spec_trigger ChartLookup l = (\<exists>w \<in> {''chart'', ''price''}. str_in w l)"
| "spec_trigger BuyRecommendation l =
     (\<exists>w \<in> {''buy'', ''recommend'', ''top pick'', ''top stocks'', ''which stock''}. str_in w l)"
| "spec_trigger SellRecommendation l =
     (\<exists>w \<in> {''sell'', ''dump'', ''what to avoid'', ''exit''}. str_in w l)"
| "spec_trigger MarketSummary l =
     (\<exists>w \<in> {''market summary'', ''today's trend'', ''market today'', ''what's the trend''}.
        str_in w l)"
| "spec_trigger NewsQuery l = (\<exists>w \<in> {''news'', ''latest''}. str_in w l)"
| "spec_trigger Fallback l = True"

subsection \<open>The branches\<close>

text \<open>
  Lines 231 to 239: the candidates of the upper-cased input are tried in order until
  \<^verbatim>\<open>display_stock_chart\<close> succeeds. The result is the response (empty when none
  succeeded) and the lookups made.
\<close>

fun chart_lookup :: "(string \<Rightarrow> bool) \<Rightarrow> string list \<Rightarrow> string \<times> ui list" where
  "chart_lookup ok [] = ([], [])"
| "chart_lookup ok (word # words) =
     (if word \<notin> set [''CHART'', ''PRICE'', ''SHOW'', ''ME'', ''FOR'', ''OF'', ''THE'', ''A'']
      then (let potential_symbol = strip ''.,?!'' word in
            if ok potential_symbol
            then (''Here's the TradingView chart for '' @ potential_symbol
                    @ ''. Check the left panel.'',
                  [Chart potential_symbol])
            else (case chart_lookup ok words of
                    (response, shown) \<Rightarrow> (response, Chart potential_symbol # shown)))
      else chart_lookup ok words)"

text \<open>
  Lines 275 and 276 (and 284, 285): one line per entry, \<^verbatim>\<open>rec['symbol']\<close> and
  \<^verbatim>\<open>rec['reason']\<close> formatted by the f-string. The dash is U+2013 in UTF-8.
\<close>

fun summary_lines :: "(json \<Rightarrow> string) \<Rightarrow> json list \<Rightarrow> py_error + string" where
  "summary_lines str [] = Inr []"
| "summary_lines str (r # rs) =
     bind_e (getitem r ''symbol'') (\<lambda>sym.
     bind_e (getitem r ''reason'') (\<lambda>reason.
     bind_e (summary_lines str rs) (\<lambda>rest.
       Inr (''- '' @ str sym @ '' '' @ [CHR 0xE2, CHR 0x80, CHR 0x93] @ '' '' @ str reason
              @ newline @ rest))))"

text \<open>\<^verbatim>\<open>item.get(k, "").lower()\<close>, \<^verbatim>\<open>item[k].lower()\<close> and \<^verbatim>\<open>item[k]\<close> inside an f-string.\<close>

definition get_lower :: "field \<Rightarrow> py_error + string" where
  "get_lower f = (case f of Absent \<Rightarrow> Inr [] | Null \<Rightarrow> Inl AttributeError | Text s \<Rightarrow> Inr (lower s))"

definition item_lower :: "field \<Rightarrow> py_error + string" where
  "item_lower f =
     (case f of Absent \<Rightarrow> Inl KeyError | Null \<Rightarrow> Inl AttributeError | Text s \<Rightarrow> Inr (lower s))"

definition item_str :: "field \<Rightarrow> py_error + string" where
  "item_str f = (case f of Absent \<Rightarrow> Inl KeyError | Null \<Rightarrow> Inr ''None'' | Text s \<Rightarrow> Inr s)"

text \<open>Lines 294 to 298: title and description are lower-cased before the words are tried.\<close>

fun relevant_news :: "string list \<Rightarrow> news_item list \<Rightarrow> py_error + news_item list" where
  "relevant_news words [] = Inr []"
| "relevant_news words (item # items) =
     bind_e (get_lower (title item)) (\<lambda>t.
     bind_e (get_lower (description item)) (\<lambda>desc.
     bind_e (relevant_news words items) (\<lambda>rest.
       Inr (if list_ex (\<lambda>word. str_in word t \<or> str_in word desc) words
            then item # rest else rest))))"

text \<open>
  Line 314: here the generator lower-cases the title, and then the description if
  needed, once per keyword, so nothing is evaluated when there is no keyword.
\<close>

fun keyword_matches :: "news_item \<Rightarrow> string list \<Rightarrow> py_error + bool" where
  "keyword_matches item [] = Inr False"
| "keyword_matches item (kw # kws) =
     bind_e (item_lower (title item)) (\<lambda>t.
       if str_in kw t then Inr True
       else bind_e (get_lower (description item)) (\<lambda>desc.
              if str_in kw desc then Inr True else keyword_matches item kws))"

fun matched_news :: "string list \<Rightarrow> news_item list \<Rightarrow> py_error + news_item list" where
  "matched_news keywords [] = Inr []"
| "matched_news keywords (item # items) =
     bind_e (keyword_matches item keywords) (\<lambda>hit.
     bind_e (matched_news keywords items) (\<lambda>rest. Inr (if hit then item # rest else rest)))"

text \<open>Lines 302, 303 and 319, 320: one markdown link per item.\<close>

fun news_links :: "news_item list \<Rightarrow> py_error + string" where
  "news_links [] = Inr []"
| "news_links (item # items) =
     bind_e (item_str (title item)) (\<lambda>t.
     bind_e (item_str (url item)) (\<lambda>u.
     bind_e (news_links items) (\<lambda>rest.
       Inr (''- ['' @ t @ '']('' @ u @ '')'' @ newline @ rest))))"

subsection \<open>One turn\<close>

text \<open>
  Lines 225 to 322: the response and what is shown, or the exception that leaves the
  script (no branch catches one). In the buy branch the \<^verbatim>\<open>else\<close> belongs to the
  \<^verbatim>\<open>for\<close> loop, which has no \<^verbatim>\<open>break\<close>, so it runs after every loop. The sell branch
  never assigns \<open>response\<close>. What a turn has shown before it raises is not kept.
\<close>

definition respond :: "router_env \<Rightarrow> string \<Rightarrow> py_error + (string \<times> ui list)" where
  "respond env user_input =
     (let lower_input = lower user_input in
      case classify user_input of
        ChartLookup \<Rightarrow>
          (case chart_lookup (chart_ok env) (split (upper user_input)) of
             (response, shown) \<Rightarrow>
               Inr (if response = []
                    then ''Couldn't detect a valid stock symbol. Try something like 'Show RELIANCE chart'.''
                    else response, shown))
      | BuyRecommendation \<Rightarrow>
          bind_e (get_stockrecommendations (http env 0)) (\<lambda>first.
          bind_e (get_stockrecommendations (http env 1)) (\<lambda>recommendations.
            Inr (''No top picks found at the moment. Try again later.'',
                 Markdown ''### Today's Stock Picks'' # map Success recommendations)))
      | SellRecommendation \<Rightarrow>
          bind_e (get_sellrecommendations (http env 0)) (\<lambda>recommendations.
            Inr ([], map Error recommendations))
      | MarketSummary \<Rightarrow>
          bind_e (get_stockrecommendations (http env 0)) (\<lambda>buys.
          bind_e (get_sellrecommendations (http env 1)) (\<lambda>sells.
          bind_e (if buys \<noteq> []
                  then bind_e (summary_lines (py_str env) buys) (\<lambda>ls.
                         Inr (''**Top Gainers:**'' @ newline @ ls))
                  else Inr (''No gainers reported.'' @ newline)) (\<lambda>gainers.
          bind_e (if sells \<noteq> []
                  then bind_e (summary_lines (py_str env) sells) (\<lambda>ls.
                         Inr (''**Top Losers:**'' @ newline @ ls))
                  else Inr (''No losers reported.'' @ newline)) (\<lambda>losers.
            Inr ([CHR 0xF0, CHR 0x9F, CHR 0x93, CHR 0x8A] @ '' **Market Summary Today:**''
                   @ newline @ newline @ gainers @ newline @ losers, [])))))
      | NewsQuery \<Rightarrow>
          bind_e (news env) (\<lambda>news_items.
          bind_e (relevant_news (split lower_input) news_items) (\<lambda>relevant.
            if relevant \<noteq> []
            then bind_e (news_links (take 5 relevant)) (\<lambda>ls.
                   Inr ([CHR 0xF0, CHR 0x9F, CHR 0x97, CHR 0x9E, CHR 0xEF, CHR 0xB8, CHR 0x8F]
                          @ '' Here's the latest news related to your query:''
                          @ newline @ newline @ ls, []))
            else Inr (''Couldn't find specific news. Check the top news section above. ''
                        @ [CHR 0xF0, CHR 0x9F, CHR 0x91, CHR 0x86], [])))
      | Fallback \<Rightarrow>
          bind_e (news env) (\<lambda>news_items.
          bind_e (matched_news (split lower_input) news_items) (\<lambda>matched.
            if matched \<noteq> []
            then bind_e (news_links (take 3 matched)) (\<lambda>ls.
                   Inr (''Here'' @ [CHR 0xE2, CHR 0x80, CHR 0x99]
                          @ ''s what I found related to your query:'' @ newline @ newline @ ls, []))
            else Inr (''I can help with stock charts, prices, top picks, and news. Try 'top picks', 'sell today', or 'market summary'.'',
                      []))))"

subsection \<open>The chat history\<close>

text \<open>
  Lines 223, 224 and 324. An empty input is not processed. The user entry is appended
  before the branch runs, the assistant entry after it, so a turn that raises leaves
  the user entry alone. The result is the exception (if any), the history and what was
  shown.
\<close>

record chat_entry =
  role :: string
  content :: string

definition process_utterance ::
    "router_env \<Rightarrow> chat_entry list \<Rightarrow> string \<Rightarrow> py_error option \<times> chat_entry list \<times> ui list" where
  "process_utterance env chat_history user_input =
     (if user_input = [] then (None, chat_history, [])
      else
        (let h = chat_history @ [\<lparr>role = ''user'', content = user_input\<rparr>] in
         case respond env user_input of
           Inl e \<Rightarrow> (Some e, h, [])
         | Inr (response, shown) \<Rightarrow>
             (None, h @ [\<lparr>role = ''assistant'', content = response\<rparr>], shown)))"

text \<open>A session: the turns in arrival order, each with its surroundings.\<close>

fun session :: "(router_env \<times> string) list \<Rightarrow> chat_entry list \<Rightarrow> chat_entry list" where
  "session [] chat_history = chat_history"
| "session ((env, user_input) # turns) chat_history =
     session turns (fst (snd (process_utterance env chat_history user_input)))"

text \<open>
  Sample surroundings: the Recommendation Source answers every request with the sample
  payload, with a payload whose lists are empty, or not at all.
\<close>

definition no_lists_payload :: json where
  "no_lists_payload =
     JObj [(''trending_stocks'', JObj [(''top_gainers'', JArr []), (''top_losers'', JArr [])])]"

definition sample_str :: "json \<Rightarrow> string" where
  "sample_str j = (case j of JStr s \<Rightarrow> s | _ \<Rightarrow> ''?'')"

definition trending_env :: router_env where
  "trending_env = \<lparr>chart_ok = (\<lambda>s. False), http = (\<lambda>k. Response 200 (Some sample_payload)),
                    news = Inr [], py_str = sample_str\<rparr>"

definition quiet_env :: router_env where
  "quiet_env = \<lparr>chart_ok = (\<lambda>s. False), http = (\<lambda>k. Response 200 (Some no_lists_payload)),
                 news = Inr [], py_str = sample_str\<rparr>"

definition offline_env :: router_env where
  "offline_env = \<lparr>chart_ok = (\<lambda>s. False), http = (\<lambda>k. ConnectionFails),
                   news = Inr [], py_str = sample_str\<rparr>"



section \<open>Properties of the ticker refresh loop\<close>

subsection \<open>Auxiliary facts\<close>

lemma symbol_names: "map symbol_name symbols =
  [''RELIANCE'', ''TCS'', ''HDFCBANK'', ''INFY'', ''TATAMOTORS'', ''WIPRO'', ''BAJFINANCE'']"
  by (simp add: symbols_def symbol_name_def str_replace_def)

lemma dom_collect_prices:
  "dom (fst (collect_prices live src rnd k ss prices)) = dom prices \<union> symbol_name ` set ss"
  by (induction ss arbitrary: k prices) (auto split: prod.splits)

lemma perturb_bound:
  fixes b r :: real
  assumes "0 \<le> r" "r < 1"
  shows "\<bar>b * (1 + (r - 0.5) * 0.01) - b\<bar> \<le> 0.005 * \<bar>b\<bar>"
proof -
  define d where "d = (r - 0.5) * 0.01"
  have d: "\<bar>d\<bar> \<le> 0.005" unfolding d_def using assms by (simp add: abs_if)
  have "b * (1 + d) - b = b * d" by (simp add: algebra_simps)
  then have "\<bar>b * (1 + d) - b\<bar> = \<bar>b\<bar> * \<bar>d\<bar>" by (simp only: abs_mult)
  also have "\<dots> \<le> \<bar>b\<bar> * 0.005" using d by (intro mult_left_mono) auto
  finally show ?thesis unfolding d_def by (simp only: mult.commute)
qed

lemma perturb_pos:
  fixes b r :: real
  assumes "0 \<le> r" "r < 1" "0 < b"
  shows "0 < b * (1 + (r - 0.5) * 0.01)"
proof -
  have "0 < 1 + (r - 0.5) * 0.01" using assms(1) by (simp add: field_simps) 
  with assms(3) show ?thesis by (rule mult_pos_pos)
qed

lemma process_symbol_cases:
  assumes rng: "\<forall>i. 0 \<le> rnd i \<and> rnd i < (1::real)"
    and q: "fst (process_symbol live src rnd k s) = q"
  shows "(case src s of
            Inl e \<Rightarrow> 1000 \<le> price q \<and> price q < 2000 \<and> \<bar>change q\<bar> \<le> 1
          | Inr nfo \<Rightarrow>
              (case (regularMarketPrice nfo, previousClose nfo) of
                 (Some p, Some pc) \<Rightarrow>
                   if pc = 0
                   then 1000 \<le> price q \<and> price q < 2000 \<and> \<bar>change q\<bar> \<le> 1
                   else price q = p \<and> change q = (p - pc) / pc * 100
               | _ \<Rightarrow>
                   \<bar>change q\<bar> \<le> 1 \<and>
                   (\<exists>base. (case live (symbol_name s) of
                               Some q0 \<Rightarrow> base = price q0
                             | None \<Rightarrow> 1000 \<le> base \<and> base < 2000) \<and>
                           \<bar>price q - base\<bar> \<le> 0.005 * \<bar>base\<bar>)))"
proof -
  have r: "\<And>i. 0 \<le> rnd i" "\<And>i. rnd i < 1" using rng by auto
  have c: "\<And>i. \<bar>(rnd i - 0.5) * 2\<bar> \<le> 1"
  proof -
    fix i show "\<bar>(rnd i - 0.5) * 2\<bar> \<le> 1" using r(1)[of i] r(2)[of i] by (simp add: abs_le_iff)
  qed
  have lo: "\<And>i. 1000 \<le> 1000 + rnd i * 1000" using r(1) by simp
  have hi: "\<And>i. 1000 + rnd i * 1000 < 2000" using r(2) by simp
  note pb = perturb_bound[OF r(1) r(2)]
  show ?thesis
  proof (cases "src s")
    case (Inl e)
    then show ?thesis using q[symmetric] lo hi c
      by (simp add: process_symbol_def try_symbol_def)
  next
    case (Inr nfo)
    show ?thesis
    proof (cases "regularMarketPrice nfo")
      case None
      show ?thesis
      proof (cases "live (symbol_name s)")
        case N: None
        have "\<bar>price q - (1000 + rnd k * 1000)\<bar> \<le> 0.005 * \<bar>1000 + rnd k * 1000\<bar>"
          using q[symmetric] Inr None N pb[of "1000 + rnd k * 1000" "k + 1"]
          by (simp add: process_symbol_def try_symbol_def Let_def)
        with lo hi have "\<exists>base. (1000 \<le> base \<and> base < 2000) \<and> \<bar>price q - base\<bar> \<le> 0.005 * \<bar>base\<bar>"
          by blast
        moreover have "\<bar>change q\<bar> \<le> 1" using q[symmetric] Inr None N c
          by (simp add: process_symbol_def try_symbol_def Let_def)
        ultimately show ?thesis using Inr None N by simp
      next
        case (Some q0)
        have "\<bar>price q - price q0\<bar> \<le> 0.005 * \<bar>price q0\<bar>"
          using q[symmetric] Inr None Some pb[of "price q0" "k + 1"]
          by (simp add: process_symbol_def try_symbol_def Let_def)
        moreover have "\<bar>change q\<bar> \<le> 1" using q[symmetric] Inr None Some c
          by (simp add: process_symbol_def try_symbol_def Let_def)
        ultimately show ?thesis using Inr None Some by simp
      qed
    next
      case P: (Some p)
      show ?thesis
      proof (cases "previousClose nfo")
        case None
        show ?thesis
        proof (cases "live (symbol_name s)")
          case N: None
          have "\<bar>price q - (1000 + rnd k * 1000)\<bar> \<le> 0.005 * \<bar>1000 + rnd k * 1000\<bar>"
            using q[symmetric] Inr None P N pb[of "1000 + rnd k * 1000" "k + 1"]
            by (simp add: process_symbol_def try_symbol_def Let_def)
          with lo hi have "\<exists>base. (1000 \<le> base \<and> base < 2000) \<and> \<bar>price q - base\<bar> \<le> 0.005 * \<bar>base\<bar>"
            by blast
          moreover have "\<bar>change q\<bar> \<le> 1" using q[symmetric] Inr None P N c
            by (simp add: process_symbol_def try_symbol_def Let_def)
          ultimately show ?thesis using Inr None P N by simp
        next
          case (Some q0)
          have "\<bar>price q - price q0\<bar> \<le> 0.005 * \<bar>price q0\<bar>"
            using q[symmetric] Inr None P Some pb[of "price q0" "k + 1"]
            by (simp add: process_symbol_def try_symbol_def Let_def)
          moreover have "\<bar>change q\<bar> \<le> 1" using q[symmetric] Inr None P Some c
            by (simp add: process_symbol_def try_symbol_def Let_def)
          ultimately show ?thesis using Inr None P Some by simp
        qed
      next
        case (Some pc)
        then show ?thesis using q[symmetric] Inr P lo hi c
          by (simp add: process_symbol_def try_symbol_def)
      qed
    qed
  qed
qed

lemma process_symbol_pos:
  assumes rng: "\<forall>i. 0 \<le> rnd i \<and> rnd i < (1::real)"
    and src: "\<forall>nfo p. src s = Inr nfo \<longrightarrow> regularMarketPrice nfo = Some p \<longrightarrow> 0 < p"
    and live: "\<forall>q. live (symbol_name s) = Some q \<longrightarrow> 0 < price q"
  shows "0 < price (fst (process_symbol live src rnd k s))"
proof -
  have r: "\<And>i. 0 \<le> rnd i" "\<And>i. rnd i < 1" using rng by auto
  have lo: "\<And>i. 0 < 1000 + rnd i * 1000"
  proof -
    fix i show "0 < 1000 + rnd i * 1000" using r(1)[of i] by simp
  qed
  note pp = perturb_pos[OF r(1) r(2)]
  show ?thesis
    using src live lo pp[OF lo] pp
    by (auto simp: process_symbol_def try_symbol_def Let_def split: sum.splits option.splits)
qed

lemma collect_prices_other:
  "x \<notin> symbol_name ` set ss \<Longrightarrow> fst (collect_prices live src rnd k ss prices) x = prices x"
  by (induction ss arbitrary: k prices) (auto split: prod.splits)

lemma collect_prices_Cons:
  "process_symbol live src rnd k a = (q, k') \<Longrightarrow>
   collect_prices live src rnd k (a # ss) prices
     = collect_prices live src rnd k' ss (prices(symbol_name a \<mapsto> q))"
  by simp

lemma loop_Suc:
  "\<not> stop_ticker (envs c) \<Longrightarrow> refresh_cycle (envs c) rnd k live = (live', k', evs) \<Longrightarrow>
   update_live_prices (Suc n) envs rnd c k live
     = (update_live_prices n envs rnd (Suc c) k' live')
         \<lparr>trace := CheckStop False # evs @ trace (update_live_prices n envs rnd (Suc c) k' live')\<rparr>"
  by (simp add: Let_def)

lemma collect_prices_lookup:
  assumes "distinct (map symbol_name ss)" and "s \<in> set ss"
  shows "\<exists>j. fst (collect_prices live src rnd k ss prices) (symbol_name s)
               = Some (fst (process_symbol live src rnd j s))"
  using assms
proof (induction ss arbitrary: k prices)
  case Nil
  then show ?case by simp
next
  case (Cons a ss)
  obtain q k' where p: "process_symbol live src rnd k a = (q, k')"
    by (cases "process_symbol live src rnd k a") auto
  show ?case
  proof (cases "s \<in> set ss")
    case True
    with Cons.prems have "distinct (map symbol_name ss)" by simp
    from Cons.IH[OF this True, of k' "prices(symbol_name a \<mapsto> q)"]
    show ?thesis unfolding collect_prices_Cons[OF p] .
  next
    case False
    with Cons.prems have sa: "s = a" by simp
    from Cons.prems(1) have "symbol_name a \<notin> symbol_name ` set ss" by simp
    from collect_prices_other[OF this, of live src rnd k' "prices(symbol_name a \<mapsto> q)"] p sa
    have "fst (collect_prices live src rnd k (a # ss) prices) (symbol_name s)
            = Some (fst (process_symbol live src rnd k s))"
      unfolding collect_prices_Cons[OF p] by simp
    then show ?thesis by blast
  qed
qed

lemma collect_prices_pos:
  assumes rng: "\<forall>i. 0 \<le> rnd i \<and> rnd i < (1::real)"
    and src: "\<forall>s nfo p. src s = Inr nfo \<longrightarrow> regularMarketPrice nfo = Some p \<longrightarrow> 0 < p"
    and live: "\<forall>s q. live s = Some q \<longrightarrow> 0 < price q"
    and acc: "\<forall>s q. prices s = Some q \<longrightarrow> 0 < price q"
  shows "\<forall>s q. fst (collect_prices live src rnd k ss prices) s = Some q \<longrightarrow> 0 < price q"
  using acc
proof (induction ss arbitrary: k prices)
  case Nil
  then show ?case by simp
next
  case (Cons a ss)
  obtain q k' where p: "process_symbol live src rnd k a = (q, k')"
    by (cases "process_symbol live src rnd k a") auto
  have "0 < price (fst (process_symbol live src rnd k a))"
    using rng src live by (intro process_symbol_pos) auto
  with p have "0 < price q" by simp
  with Cons.prems have "\<forall>s q'. (prices(symbol_name a \<mapsto> q)) s = Some q' \<longrightarrow> 0 < price q'"
    by auto
  from Cons.IH[OF this, of k'] show ?case unfolding collect_prices_Cons[OF p] .
qed

lemma refresh_cycle_done:
  assumes "\<not> assign_raises env"
  shows "refresh_cycle env rnd k live =
           (fst (collect_prices live (source env) rnd k symbols Map.empty),
            snd (collect_prices live (source env) rnd k symbols Map.empty),
            [Publish, Sleep 60])"
  using assms by (simp add: refresh_cycle_def try_cycle_def split: prod.splits)

lemma refresh_cycle_failed:
  assumes "assign_raises env"
  shows "refresh_cycle env rnd k live =
           (live, snd (collect_prices live (source env) rnd k symbols Map.empty), [Sleep 30])"
  using assms by (simp add: refresh_cycle_def try_cycle_def split: prod.splits)

lemma symbol_names_distinct: "distinct (map symbol_name symbols)"
  unfolding symbol_names by simp

lemma symbol_names_set: "symbol_name ` set symbols =
  {''RELIANCE'', ''TCS'', ''HDFCBANK'', ''INFY'', ''TATAMOTORS'', ''WIPRO'', ''BAJFINANCE''}"
proof -
  have "symbol_name ` set symbols = set (map symbol_name symbols)" by simp
  also have "\<dots> = {''RELIANCE'', ''TCS'', ''HDFCBANK'', ''INFY'', ''TATAMOTORS'', ''WIPRO'', ''BAJFINANCE''}"
    unfolding symbol_names by simp
  finally show ?thesis .
qed

lemma refresh_cycle_dom:
  "dom (fst (refresh_cycle env rnd k live)) = symbol_name ` set symbols
   \<or> fst (refresh_cycle env rnd k live) = live"
proof (cases "assign_raises env")
  case True
  then show ?thesis by (simp add: refresh_cycle_failed)
next
  case False
  then show ?thesis by (simp add: refresh_cycle_done dom_collect_prices)
qed

lemma refresh_cycle_pos:
  assumes rng: "\<forall>i. 0 \<le> rnd i \<and> rnd i < (1::real)"
    and src: "\<forall>s nfo p. source env s = Inr nfo \<longrightarrow> regularMarketPrice nfo = Some p \<longrightarrow> 0 < p"
    and live: "\<forall>s q. live s = Some q \<longrightarrow> 0 < price q"
  shows "\<forall>s q. fst (refresh_cycle env rnd k live) s = Some q \<longrightarrow> 0 < price q"
proof (cases "assign_raises env")
  case True
  then show ?thesis using live by (simp add: refresh_cycle_failed)
next
  case False
  have "\<forall>s q. Map.empty s = Some q \<longrightarrow> 0 < price (q::quote)" by simp
  from collect_prices_pos[OF rng src live this, of k symbols] False
  show ?thesis by (simp add: refresh_cycle_done)
qed

lemma loop_still_running:
  "\<forall>j<n. \<not> stop_ticker (envs (c + j)) \<Longrightarrow>
   outcome (update_live_prices n envs rnd c k live) = StillRunning"
proof (induction n arbitrary: c k live)
  case 0
  then show ?case by simp
next
  case (Suc n)
  from Suc.prems have ns: "\<not> stop_ticker (envs c)" by force
  from Suc.prems have "\<forall>j<n. \<not> stop_ticker (envs (Suc c + j))" by auto
  obtain live' k' evs where rc: "refresh_cycle (envs c) rnd k live = (live', k', evs)"
    by (cases "refresh_cycle (envs c) rnd k live") auto
  from Suc.IH[OF \<open>\<forall>j<n. \<not> stop_ticker (envs (Suc c + j))\<close>, of k' live']
  show ?case unfolding loop_Suc[where envs=envs and c=c, OF ns rc] by simp
qed

lemma loop_pos:
  assumes rng: "\<forall>i. 0 \<le> rnd i \<and> rnd i < (1::real)"
    and src: "\<forall>c s nfo p. source (envs c) s = Inr nfo \<longrightarrow> regularMarketPrice nfo = Some p \<longrightarrow> 0 < p"
    and live: "\<forall>s q. live s = Some q \<longrightarrow> 0 < price q"
  shows "\<forall>s q. live_prices (update_live_prices n envs rnd c k live) s = Some q \<longrightarrow> 0 < price q"
  using live
proof (induction n arbitrary: c k live)
  case 0
  then show ?case by simp
next
  case (Suc n)
  show ?case
  proof (cases "stop_ticker (envs c)")
    case True
    then show ?thesis using Suc.prems by simp
  next
    case False
    obtain live' k' evs where rc: "refresh_cycle (envs c) rnd k live = (live', k', evs)"
      by (cases "refresh_cycle (envs c) rnd k live") auto
    have "\<forall>s nfo p. source (envs c) s = Inr nfo \<longrightarrow> regularMarketPrice nfo = Some p \<longrightarrow> 0 < p"
      using src by blast
    from refresh_cycle_pos[OF rng this Suc.prems, of k] rc
    have "\<forall>s q. live' s = Some q \<longrightarrow> 0 < price q" by simp
    from Suc.IH[OF this, of "Suc c" k'] show ?thesis unfolding loop_Suc[where envs=envs and c=c, OF False rc] by simp
  qed
qed

lemma loop_dom_keep:
  "dom (live_prices (update_live_prices n envs rnd c k live)) = symbol_name ` set symbols
   \<or> live_prices (update_live_prices n envs rnd c k live) = live"
proof (induction n arbitrary: c k live)
  case 0
  then show ?case by simp
next
  case (Suc n)
  show ?case
  proof (cases "stop_ticker (envs c)")
    case True
    then show ?thesis by simp
  next
    case False
    obtain live' k' evs where rc: "refresh_cycle (envs c) rnd k live = (live', k', evs)"
      by (cases "refresh_cycle (envs c) rnd k live") auto
    from refresh_cycle_dom[of "envs c" rnd k live] rc
    have 1: "dom live' = symbol_name ` set symbols \<or> live' = live" by simp
    have lp: "live_prices (update_live_prices (Suc n) envs rnd c k live)
                = live_prices (update_live_prices n envs rnd (Suc c) k' live')"
      unfolding loop_Suc[where envs=envs and c=c, OF False rc] by simp
    from Suc.IH[of "Suc c" k' live'] 1 show ?thesis unfolding lp by metis
  qed
qed

lemma loop_dom:
  assumes "\<forall>j<n. \<not> stop_ticker (envs (c + j))"
    and "\<exists>j<n. \<not> assign_raises (envs (c + j))"
  shows "dom (live_prices (update_live_prices n envs rnd c k live)) = symbol_name ` set symbols"
  using assms
proof (induction n arbitrary: c k live)
  case 0
  then show ?case by simp
next
  case (Suc n)
  from Suc.prems(1) have ns: "\<not> stop_ticker (envs c)" by force
  from Suc.prems(1) have rest: "\<forall>j<n. \<not> stop_ticker (envs (Suc c + j))" by auto
  obtain live' k' evs where rc: "refresh_cycle (envs c) rnd k live = (live', k', evs)"
    by (cases "refresh_cycle (envs c) rnd k live") auto
  show ?case
  proof (cases "assign_raises (envs c)")
    case True
    from Suc.prems(2) obtain j where j: "j < Suc n" "\<not> assign_raises (envs (c + j))" by blast
    with True have "j \<noteq> 0" by (cases j) auto
    then obtain j' where "j = Suc j'" by (cases j) auto
    with j have "\<exists>j<n. \<not> assign_raises (envs (Suc c + j))" by auto
    from Suc.IH[OF rest this, of k' live'] show ?thesis unfolding loop_Suc[where envs=envs and c=c, OF ns rc] by simp
  next
    case False
    with rc have "live' = fst (collect_prices live (source (envs c)) rnd k symbols Map.empty)"
      by (simp add: refresh_cycle_done)
    then have "dom live' = symbol_name ` set symbols"
      by (simp add: dom_collect_prices)
    moreover have "live_prices (update_live_prices (Suc n) envs rnd c k live)
                = live_prices (update_live_prices n envs rnd (Suc c) k' live')"
      unfolding loop_Suc[where envs=envs and c=c, OF ns rc] by simp
    ultimately show ?thesis
      using loop_dom_keep[of n envs rnd "Suc c" k' live'] by metis
  qed
qed

subsection \<open>The published snapshot\<close>

text \<open>Two cycles evaluated: a Quote Source that raises, and one that delivers a price of 0.\<close>

lemma process_failing:
  "process_symbol live failing_source half_rng k s = (\<lparr>price = 1500, change = 0\<rparr>, k + 2)"
  by (simp add: process_symbol_def try_symbol_def failing_source_def half_rng_def)

lemma process_zero_price:
  "process_symbol live zero_price_source half_rng k s = (\<lparr>price = 0, change = - 100\<rparr>, k)"
  by (simp add: process_symbol_def try_symbol_def zero_price_source_def)

lemma reliance_name: "symbol_name ''RELIANCE.NS'' = ''RELIANCE''"
  by (simp add: symbol_name_def str_replace_def)

lemma reliance_symbol: "''RELIANCE.NS'' \<in> set symbols"
  by (simp add: symbols_def)

lemma failing_cycle_reliance:
  "fst (refresh_cycle failing_env half_rng 0 prior_snapshot) ''RELIANCE''
     = Some \<lparr>price = 1500, change = 0\<rparr>"
proof -
  have "fst (refresh_cycle failing_env half_rng 0 prior_snapshot)
          = fst (collect_prices prior_snapshot failing_source half_rng 0 symbols Map.empty)"
    by (simp add: refresh_cycle_done failing_env_def)
  moreover from collect_prices_lookup[OF symbol_names_distinct reliance_symbol,
      of prior_snapshot failing_source half_rng 0 Map.empty]
  have "fst (collect_prices prior_snapshot failing_source half_rng 0 symbols Map.empty) ''RELIANCE''
          = Some \<lparr>price = 1500, change = 0\<rparr>"
    by (simp add: reliance_name process_failing)
  ultimately show ?thesis by simp
qed

lemma zero_price_cycle_reliance:
  "fst (refresh_cycle zero_price_env half_rng 0 Map.empty) ''RELIANCE''
     = Some \<lparr>price = 0, change = - 100\<rparr>"
proof -
  have "fst (refresh_cycle zero_price_env half_rng 0 Map.empty)
          = fst (collect_prices Map.empty zero_price_source half_rng 0 symbols Map.empty)"
    by (simp add: refresh_cycle_done zero_price_env_def)
  moreover from collect_prices_lookup[OF symbol_names_distinct reliance_symbol,
      of Map.empty zero_price_source half_rng 0 Map.empty]
  have "fst (collect_prices Map.empty zero_price_source half_rng 0 symbols Map.empty) ''RELIANCE''
          = Some \<lparr>price = 0, change = - 100\<rparr>"
    by (simp add: reliance_name process_zero_price)
  ultimately show ?thesis by simp
qed

lemma prior_reliance: "prior_snapshot ''RELIANCE'' = Some \<lparr>price = 50, change = 0\<rparr>"
  by (simp add: prior_snapshot_def)

text \<open>
  Claim C1, as the code has it. For every cycle whose body completes, with every draw in
  \<open>[0, 1)\<close>: the published snapshot has exactly the seven configured symbols as keys;
  every published price is positive if every \<^verbatim>\<open>regularMarketPrice\<close> the Quote Source
  delivers and every price of the prior snapshot is positive (a delivered price is
  published unchecked); and per symbol the quote is one of the following. When the Quote
  Source raises, or \<^verbatim>\<open>previousClose\<close> is 0, the price is a draw in \<open>[1000, 2000)\<close> whatever
  the prior snapshot holds, and the change is in \<open>[-1, 1]\<close>. When the Quote Source returns
  without a price or a previous close, the price is within 0.5 percent of a base that is
  the prior snapshot's price when present and a draw in \<open>[1000, 2000)\<close> otherwise, and the
  change is in \<open>[-1, 1]\<close>. Otherwise the price is the delivered one and the change is the
  percentage against the previous close. Nothing is raised, and as long as the stop flag
  is not set the loop keeps running, whatever the Quote Source does: after any number of
  cycles the run has not returned, its snapshot has the seven keys once one cycle has
  completed, and its prices are positive under the same two conditions.
\<close>

theorem refresh_cycle_snapshot:
  assumes rng: "\<forall>i. 0 \<le> rnd i \<and> rnd i < 1"
    and completes: "\<not> assign_raises env"
  shows "dom (fst (refresh_cycle env rnd k live))
           = {''RELIANCE'', ''TCS'', ''HDFCBANK'', ''INFY'', ''TATAMOTORS'', ''WIPRO'', ''BAJFINANCE''}
       \<and> ((\<forall>s nfo p. source env s = Inr nfo \<longrightarrow> regularMarketPrice nfo = Some p \<longrightarrow> 0 < p) \<longrightarrow>
          (\<forall>s q. live s = Some q \<longrightarrow> 0 < price q) \<longrightarrow>
          (\<forall>s q. fst (refresh_cycle env rnd k live) s = Some q \<longrightarrow> 0 < price q))
       \<and> (\<forall>s \<in> set symbols. \<exists>q. fst (refresh_cycle env rnd k live) (symbol_name s) = Some q \<and>
            (case source env s of
               Inl e \<Rightarrow> 1000 \<le> price q \<and> price q < 2000 \<and> \<bar>change q\<bar> \<le> 1
             | Inr nfo \<Rightarrow>
                 (case (regularMarketPrice nfo, previousClose nfo) of
                    (Some p, Some pc) \<Rightarrow>
                      if pc = 0
                      then 1000 \<le> price q \<and> price q < 2000 \<and> \<bar>change q\<bar> \<le> 1
                      else price q = p \<and> change q = (p - pc) / pc * 100
                  | _ \<Rightarrow>
                      \<bar>change q\<bar> \<le> 1 \<and>
                      (\<exists>base. (case live (symbol_name s) of
                                  Some q0 \<Rightarrow> base = price q0
                                | None \<Rightarrow> 1000 \<le> base \<and> base < 2000) \<and>
                              \<bar>price q - base\<bar> \<le> 0.005 * \<bar>base\<bar>))))
       \<and> ((\<forall>j<n. \<not> stop_ticker (envs (c + j))) \<longrightarrow>
            outcome (update_live_prices n envs rnd c k live) = StillRunning \<and>
            ((\<exists>j<n. \<not> assign_raises (envs (c + j))) \<longrightarrow>
               dom (live_prices (update_live_prices n envs rnd c k live))
                 = {''RELIANCE'', ''TCS'', ''HDFCBANK'', ''INFY'', ''TATAMOTORS'', ''WIPRO'',
                    ''BAJFINANCE''}) \<and>
            ((\<forall>c s nfo p. source (envs c) s = Inr nfo \<longrightarrow> regularMarketPrice nfo = Some p \<longrightarrow> 0 < p) \<longrightarrow>
             (\<forall>s q. live s = Some q \<longrightarrow> 0 < price q) \<longrightarrow>
             (\<forall>s q. live_prices (update_live_prices n envs rnd c k live) s = Some q \<longrightarrow> 0 < price q)))"
proof (intro conjI)
  let ?new = "fst (refresh_cycle env rnd k live)"
  have new: "?new = fst (collect_prices live (source env) rnd k symbols Map.empty)"
    using completes by (simp add: refresh_cycle_done)
  show "dom ?new = {''RELIANCE'', ''TCS'', ''HDFCBANK'', ''INFY'', ''TATAMOTORS'', ''WIPRO'', ''BAJFINANCE''}"
    unfolding new by (simp add: dom_collect_prices symbol_names_set)
  show "(\<forall>s nfo p. source env s = Inr nfo \<longrightarrow> regularMarketPrice nfo = Some p \<longrightarrow> 0 < p) \<longrightarrow>
        (\<forall>s q. live s = Some q \<longrightarrow> 0 < price q) \<longrightarrow>
        (\<forall>s q. ?new s = Some q \<longrightarrow> 0 < price q)"
    using refresh_cycle_pos[OF rng, of env live k] by blast
  show "\<forall>s \<in> set symbols. \<exists>q. ?new (symbol_name s) = Some q \<and>
            (case source env s of
               Inl e \<Rightarrow> 1000 \<le> price q \<and> price q < 2000 \<and> \<bar>change q\<bar> \<le> 1
             | Inr nfo \<Rightarrow>
                 (case (regularMarketPrice nfo, previousClose nfo) of
                    (Some p, Some pc) \<Rightarrow>
                      if pc = 0
                      then 1000 \<le> price q \<and> price q < 2000 \<and> \<bar>change q\<bar> \<le> 1
                      else price q = p \<and> change q = (p - pc) / pc * 100
                  | _ \<Rightarrow>
                      \<bar>change q\<bar> \<le> 1 \<and>
                      (\<exists>base. (case live (symbol_name s) of
                                  Some q0 \<Rightarrow> base = price q0
                                | None \<Rightarrow> 1000 \<le> base \<and> base < 2000) \<and>
                              \<bar>price q - base\<bar> \<le> 0.005 * \<bar>base\<bar>)))"
  proof
    fix s assume "s \<in> set symbols"
    from collect_prices_lookup[OF symbol_names_distinct this, of live "source env" rnd k Map.empty]
    obtain j where j: "?new (symbol_name s) = Some (fst (process_symbol live (source env) rnd j s))"
      unfolding new by blast
    from process_symbol_cases[OF rng refl, of live "source env" j s] j
    show "\<exists>q. ?new (symbol_name s) = Some q \<and>
            (case source env s of
               Inl e \<Rightarrow> 1000 \<le> price q \<and> price q < 2000 \<and> \<bar>change q\<bar> \<le> 1
             | Inr nfo \<Rightarrow>
                 (case (regularMarketPrice nfo, previousClose nfo) of
                    (Some p, Some pc) \<Rightarrow>
                      if pc = 0
                      then 1000 \<le> price q \<and> price q < 2000 \<and> \<bar>change q\<bar> \<le> 1
                      else price q = p \<and> change q = (p - pc) / pc * 100
                  | _ \<Rightarrow>
                      \<bar>change q\<bar> \<le> 1 \<and>
                      (\<exists>base. (case live (symbol_name s) of
                                  Some q0 \<Rightarrow> base = price q0
                                | None \<Rightarrow> 1000 \<le> base \<and> base < 2000) \<and>
                              \<bar>price q - base\<bar> \<le> 0.005 * \<bar>base\<bar>)))"
      by blast
  qed
  show "(\<forall>j<n. \<not> stop_ticker (envs (c + j))) \<longrightarrow>
            outcome (update_live_prices n envs rnd c k live) = StillRunning \<and>
            ((\<exists>j<n. \<not> assign_raises (envs (c + j))) \<longrightarrow>
               dom (live_prices (update_live_prices n envs rnd c k live))
                 = {''RELIANCE'', ''TCS'', ''HDFCBANK'', ''INFY'', ''TATAMOTORS'', ''WIPRO'',
                    ''BAJFINANCE''}) \<and>
            ((\<forall>c s nfo p. source (envs c) s = Inr nfo \<longrightarrow> regularMarketPrice nfo = Some p \<longrightarrow> 0 < p) \<longrightarrow>
             (\<forall>s q. live s = Some q \<longrightarrow> 0 < price q) \<longrightarrow>
             (\<forall>s q. live_prices (update_live_prices n envs rnd c k live) s = Some q \<longrightarrow> 0 < price q))"
  proof (intro impI)
    assume ns: "\<forall>j<n. \<not> stop_ticker (envs (c + j))"
    have A: "outcome (update_live_prices n envs rnd c k live) = StillRunning"
      using ns by (rule loop_still_running)
    have B: "(\<exists>j<n. \<not> assign_raises (envs (c + j))) \<longrightarrow>
               dom (live_prices (update_live_prices n envs rnd c k live))
                 = {''RELIANCE'', ''TCS'', ''HDFCBANK'', ''INFY'', ''TATAMOTORS'', ''WIPRO'',
                    ''BAJFINANCE''}"
    proof
      assume "\<exists>j<n. \<not> assign_raises (envs (c + j))"
      from loop_dom[OF ns this, of rnd k live]
      show "dom (live_prices (update_live_prices n envs rnd c k live))
                 = {''RELIANCE'', ''TCS'', ''HDFCBANK'', ''INFY'', ''TATAMOTORS'', ''WIPRO'',
                    ''BAJFINANCE''}"
        by (simp only: symbol_names_set)
    qed
    have C: "(\<forall>c s nfo p. source (envs c) s = Inr nfo \<longrightarrow> regularMarketPrice nfo = Some p \<longrightarrow> 0 < p) \<longrightarrow>
             (\<forall>s q. live s = Some q \<longrightarrow> 0 < price q) \<longrightarrow>
             (\<forall>s q. live_prices (update_live_prices n envs rnd c k live) s = Some q \<longrightarrow> 0 < price q)"
      using loop_pos[OF rng, of envs live n c k] by blast
    from A B C
    show "outcome (update_live_prices n envs rnd c k live) = StillRunning \<and>
            ((\<exists>j<n. \<not> assign_raises (envs (c + j))) \<longrightarrow>
               dom (live_prices (update_live_prices n envs rnd c k live))
                 = {''RELIANCE'', ''TCS'', ''HDFCBANK'', ''INFY'', ''TATAMOTORS'', ''WIPRO'',
                    ''BAJFINANCE''}) \<and>
            ((\<forall>c s nfo p. source (envs c) s = Inr nfo \<longrightarrow> regularMarketPrice nfo = Some p \<longrightarrow> 0 < p) \<longrightarrow>
             (\<forall>s q. live s = Some q \<longrightarrow> 0 < price q) \<longrightarrow>
             (\<forall>s q. live_prices (update_live_prices n envs rnd c k live) s = Some q \<longrightarrow> 0 < price q))"
      by (intro conjI)
  qed
qed

theorem refresh_cycle_snapshot_witness:
  "(\<forall>i. 0 \<le> half_rng i \<and> half_rng i < 1)
   \<and> \<not> assign_raises failing_env
   \<and> dom (fst (refresh_cycle failing_env half_rng 0 prior_snapshot))
       = {''RELIANCE'', ''TCS'', ''HDFCBANK'', ''INFY'', ''TATAMOTORS'', ''WIPRO'', ''BAJFINANCE''}
   \<and> (\<exists>q. fst (refresh_cycle failing_env half_rng 0 prior_snapshot) ''TCS'' = Some q
           \<and> 0 < price q)
   \<and> outcome (update_live_prices 3 (\<lambda>c. failing_env) half_rng 0 0 prior_snapshot) = StillRunning"
proof -
  let ?new = "fst (refresh_cycle failing_env half_rng 0 prior_snapshot)"
  have rng: "\<forall>i. 0 \<le> half_rng i \<and> half_rng i < 1" by (simp add: half_rng_def)
  have completes: "\<not> assign_raises failing_env" by (simp add: failing_env_def)
  note T = refresh_cycle_snapshot[OF rng completes, where k = 0 and live = prior_snapshot
             and n = 3 and envs = "\<lambda>c. failing_env" and c = 0]
  have src: "\<forall>s nfo p. source failing_env s = Inr nfo \<longrightarrow> regularMarketPrice nfo = Some p \<longrightarrow> 0 < p"
    by (simp add: failing_env_def failing_source_def)
  have prior: "\<forall>s q. prior_snapshot s = Some q \<longrightarrow> 0 < price q"
    by (simp add: prior_snapshot_def)
  have d: "dom ?new
       = {''RELIANCE'', ''TCS'', ''HDFCBANK'', ''INFY'', ''TATAMOTORS'', ''WIPRO'', ''BAJFINANCE''}"
    using T by (rule conjunct1)
  note pos = T[THEN conjunct2, THEN conjunct1, THEN mp, OF src, THEN mp, OF prior, rule_format]
  have "''TCS'' \<in> dom ?new" unfolding d by simp
  then obtain q where q: "?new ''TCS'' = Some q" by (auto simp only: dom_def)
  from pos[OF q] q have e: "\<exists>q. ?new ''TCS'' = Some q \<and> 0 < price q" by (intro exI conjI)
  have ns: "\<forall>j<3. \<not> stop_ticker failing_env" by (simp add: failing_env_def)
  note L = T[THEN conjunct2, THEN conjunct2, THEN conjunct2, THEN mp, OF ns, THEN conjunct1]
  from rng completes d e L show ?thesis by (intro conjI)
qed

text \<open>
  The claim as stated fails in two places. A delivered price of 0 (previous close 100) is
  published as it is, so not every published price is positive. And when the Quote Source
  raises, the synthetic price is drawn from \<open>[1000, 2000)\<close> although the prior snapshot
  holds a price (50) for the symbol.
\<close>

theorem refresh_cycle_snapshot_counterexample:
  "\<not> (\<forall>q. fst (refresh_cycle zero_price_env half_rng 0 Map.empty) ''RELIANCE'' = Some q
            \<longrightarrow> 0 < price q)
   \<and> \<not> (\<exists>q q0. fst (refresh_cycle failing_env half_rng 0 prior_snapshot) ''RELIANCE'' = Some q
            \<and> prior_snapshot ''RELIANCE'' = Some q0
            \<and> \<bar>price q - price q0\<bar> \<le> 0.005 * \<bar>price q0\<bar>)"
proof (intro conjI)
  show "\<not> (\<forall>q. fst (refresh_cycle zero_price_env half_rng 0 Map.empty) ''RELIANCE'' = Some q
            \<longrightarrow> 0 < price q)"
    by (simp add: zero_price_cycle_reliance)
  show "\<not> (\<exists>q q0. fst (refresh_cycle failing_env half_rng 0 prior_snapshot) ''RELIANCE'' = Some q
            \<and> prior_snapshot ''RELIANCE'' = Some q0
            \<and> \<bar>price q - price q0\<bar> \<le> 0.005 * \<bar>price q0\<bar>)"
    by (simp add: failing_cycle_reliance prior_reliance)
qed

subsection \<open>Control flow of the loop\<close>

text \<open>
  Claim C9. Let the loop run with fuel for \<open>n\<close> flag checks, starting at cycle \<open>c\<close>, and
  let \<open>m\<close> be the number of cycles at whose top the stop flag is read unset before it is
  first read set (or before the fuel ends). Then the events of the run are, for each of
  these \<open>m\<close> cycles in order, exactly one read of the flag at its top followed by either
  the publication and a sleep of 60 seconds (the body completed) or a sleep of 30 seconds
  alone (an exception escaped the body and was caught), and then, when the flag is read
  set, that one read and nothing more: the loop returns exactly there, never inside a
  cycle, and no exception leaves it.
\<close>

theorem update_live_prices_control:
  assumes "m \<le> n" and "\<forall>j<m. \<not> stop_ticker (envs (c + j))"
    and "m < n \<longrightarrow> stop_ticker (envs (c + m))"
  shows "trace (update_live_prices n envs rnd c k live) =
           concat (map (\<lambda>j. CheckStop False #
                     (if assign_raises (envs j) then [Sleep 30] else [Publish, Sleep 60]))
                   [c ..< c + m])
           @ (if m < n then [CheckStop True] else [])
         \<and> outcome (update_live_prices n envs rnd c k live)
             = (if m < n then Returned else StillRunning)"
  using assms
proof (induction n arbitrary: m c k live)
  case 0
  then show ?case by simp
next
  case (Suc n)
  show ?case
  proof (cases m)
    case 0
    with Suc.prems show ?thesis by simp
  next
    case (Suc m')
    from Suc.prems(2) Suc have ns: "\<not> stop_ticker (envs c)" by force
    obtain live' k' evs where rc: "refresh_cycle (envs c) rnd k live = (live', k', evs)"
      by (cases "refresh_cycle (envs c) rnd k live") auto
    have evs: "evs = (if assign_raises (envs c) then [Sleep 30] else [Publish, Sleep 60])"
      using rc by (auto simp: refresh_cycle_def try_cycle_def split: prod.splits if_splits)
    have 1: "m' \<le> n" using Suc.prems(1) Suc by simp
    have 2: "\<forall>j<m'. \<not> stop_ticker (envs (Suc c + j))"
      using Suc.prems(2) Suc by auto
    have 3: "m' < n \<longrightarrow> stop_ticker (envs (Suc c + m'))"
      using Suc.prems(3) Suc by auto
    note IH = Suc.IH[OF 1 2 3, of k' live']
    have up: "[c ..< c + Suc m'] = c # [Suc c ..< Suc c + m']"
      by (simp add: upt_conv_Cons del: upt_Suc)
    show ?thesis
      unfolding Suc up using ns rc evs IH by (simp del: upt_Suc)
  qed
qed

theorem update_live_prices_control_witness:
  "(2::nat) \<le> 5 \<and> \<not> stop_ticker (sample_envs 0) \<and> \<not> stop_ticker (sample_envs 1)
   \<and> stop_ticker (sample_envs 2)
   \<and> trace (update_live_prices 5 sample_envs half_rng 0 0 Map.empty)
       = [CheckStop False, Publish, Sleep 60, CheckStop False, Sleep 30, CheckStop True]
   \<and> outcome (update_live_prices 5 sample_envs half_rng 0 0 Map.empty) = Returned"
proof -
  have a: "(2::nat) \<le> 5" by simp
  have b: "\<forall>j<2. \<not> stop_ticker (sample_envs (0 + j))" by (simp add: sample_envs_def)
  have c: "(2::nat) < 5 \<longrightarrow> stop_ticker (sample_envs (0 + 2))" by (simp add: sample_envs_def)
  have u: "[0 ..< 0 + 2] = [0, Suc 0]" by (simp add: upt_rec)
  have e: "\<not> assign_raises (sample_envs 0)" "assign_raises (sample_envs (Suc 0))"
    "\<not> stop_ticker (sample_envs 0)" "\<not> stop_ticker (sample_envs 1)" "stop_ticker (sample_envs 2)"
    by (simp_all add: sample_envs_def)
  from update_live_prices_control[OF a b c, of half_rng 0 Map.empty]
  show ?thesis unfolding u using e by simp
qed

subsection \<open>Atomic replacement of the snapshot\<close>

lemma store_symbols_Cons:
  "process_symbol (reader_view st) src rnd k s = (q, k') \<Longrightarrow>
   store_symbols src rnd k a (s # ss) st =
     st\<lparr>heap := (heap st)(a := (heap st a)(symbol_name s \<mapsto> q))\<rparr>
     # store_symbols src rnd k' a ss (st\<lparr>heap := (heap st)(a := (heap st a)(symbol_name s \<mapsto> q))\<rparr>)"
  by (simp add: Let_def)

lemma store_symbols_shared:
  assumes "live_ref st \<noteq> a"
  shows "\<forall>st' \<in> set (store_symbols src rnd k a ss st).
           live_ref st' = live_ref st \<and> reader_view st' = reader_view st \<and> fresh st' = fresh st"
  using assms
proof (induction ss arbitrary: k st)
  case Nil
  then show ?case by simp
next
  case (Cons s ss)
  obtain q k' where p: "process_symbol (reader_view st) src rnd k s = (q, k')"
    by (cases "process_symbol (reader_view st) src rnd k s") auto
  let ?st = "st\<lparr>heap := (heap st)(a := (heap st a)(symbol_name s \<mapsto> q))\<rparr>"
  have 1: "live_ref ?st = live_ref st" "fresh ?st = fresh st" by simp_all
  have 2: "reader_view ?st = reader_view st" using Cons.prems by (simp add: reader_view_def)
  have "live_ref ?st \<noteq> a" using Cons.prems by simp
  from Cons.IH[OF this, of k'] 1 2 show ?case
    unfolding store_symbols_Cons[OF p] by simp
qed

lemma store_symbols_length: "length (store_symbols src rnd k a ss st) = length ss"
  by (induction ss arbitrary: k st) (auto split: prod.splits simp: Let_def)

lemma store_symbols_local:
  assumes "live_ref st \<noteq> a"
  shows "heap (last (st # store_symbols src rnd k a ss st)) a
           = fst (collect_prices (reader_view st) src rnd k ss (heap st a))"
  using assms
proof (induction ss arbitrary: k st)
  case Nil
  then show ?case by simp
next
  case (Cons s ss)
  obtain q k' where p: "process_symbol (reader_view st) src rnd k s = (q, k')"
    by (cases "process_symbol (reader_view st) src rnd k s") auto
  let ?st = "st\<lparr>heap := (heap st)(a := (heap st a)(symbol_name s \<mapsto> q))\<rparr>"
  have 2: "reader_view ?st = reader_view st" using Cons.prems by (simp add: reader_view_def)
  have 3: "heap ?st a = (heap st a)(symbol_name s \<mapsto> q)" by simp
  have "live_ref ?st \<noteq> a" using Cons.prems by simp
  then have IH: "heap (last (?st # store_symbols src rnd k' a ss ?st)) a
                   = fst (collect_prices (reader_view ?st) src rnd k' ss (heap ?st a))"
    by (rule Cons.IH)
  have L: "last (st # store_symbols src rnd k a (s # ss) st)
             = last (?st # store_symbols src rnd k' a ss ?st)"
    unfolding store_symbols_Cons[OF p] by simp
  have R: "collect_prices (reader_view st) src rnd k (s # ss) (heap st a)
             = collect_prices (reader_view ?st) src rnd k' ss (heap ?st a)"
    by (simp only: collect_prices_Cons[OF p] 2 3)
  show ?case by (simp only: L R IH)
qed

lemma store_symbols_accumulate:
  assumes "i < length ss"
  shows "dom (heap (store_symbols src rnd k a ss st ! i) a)
           = dom (heap st a) \<union> symbol_name ` set (take (Suc i) ss)"
  using assms
proof (induction ss arbitrary: k st i)
  case Nil
  then show ?case by simp
next
  case (Cons s ss)
  obtain q k' where p: "process_symbol (reader_view st) src rnd k s = (q, k')"
    by (cases "process_symbol (reader_view st) src rnd k s") auto
  let ?st = "st\<lparr>heap := (heap st)(a := (heap st a)(symbol_name s \<mapsto> q))\<rparr>"
  have 3: "heap ?st a = (heap st a)(symbol_name s \<mapsto> q)" by simp
  have d: "dom (heap ?st a) = insert (symbol_name s) (dom (heap st a))"
    by (simp only: 3 dom_fun_upd) simp
  show ?case
  proof (cases i)
    case 0
    have "store_symbols src rnd k a (s # ss) st ! 0 = ?st"
      unfolding store_symbols_Cons[OF p] by simp
    with d 0 show ?thesis by (simp del: fun_upd_apply)
  next
    case (Suc i')
    with Cons.prems have "i' < length ss" by simp
    then have "dom (heap (store_symbols src rnd k' a ss ?st ! i') a)
                 = dom (heap ?st a) \<union> symbol_name ` set (take (Suc i') ss)"
      by (rule Cons.IH)
    moreover have "store_symbols src rnd k a (s # ss) st ! i
                     = store_symbols src rnd k' a ss ?st ! i'"
      unfolding store_symbols_Cons[OF p] Suc by simp
    ultimately show ?thesis unfolding Suc d by (simp del: fun_upd_apply)
  qed
qed

lemma length_symbols: "length symbols = 7"
  by (simp add: symbols_def)

text \<open>
  Claim C2. Let the dict the session state refers to be an allocated object. The stores a
  reader can observe during one cycle are the eight stores after \<^verbatim>\<open>prices = {}\<close> and
  after each of the seven symbols, and a ninth after the assignment of line 54 when it
  does not raise. In each of the first eight the session state still refers to the old
  dict and the reader sees the previous snapshot unchanged, while the quotes accumulate
  in the new, cycle-local dict (after \<open>i\<close> symbols it holds exactly their names). Only in
  the ninth does the session state refer to the new dict, which then is the complete
  snapshot of the cycle with all seven symbols: the reference is assigned exactly once,
  after all symbols, and no reader sees a mixture.
\<close>

theorem cycle_stores_atomic:
  assumes alloc: "live_ref st < fresh st"
  shows "length (cycle_stores env rnd k st) = (if assign_raises env then 8 else 9)
       \<and> (\<forall>i < length (cycle_stores env rnd k st).
            live_ref (cycle_stores env rnd k st ! i) = (if i = 8 then fresh st else live_ref st)
          \<and> reader_view (cycle_stores env rnd k st ! i)
              = (if i = 8 then fst (refresh_cycle env rnd k (reader_view st)) else reader_view st))
       \<and> (\<forall>i < 8. dom (heap (cycle_stores env rnd k st ! i) (fresh st))
                     = symbol_name ` set (take i symbols))
       \<and> (\<not> assign_raises env \<longrightarrow>
            dom (reader_view (last (cycle_stores env rnd k st)))
              = {''RELIANCE'', ''TCS'', ''HDFCBANK'', ''INFY'', ''TATAMOTORS'', ''WIPRO'',
                 ''BAJFINANCE''})"
proof -
  define a where "a = fresh st"
  define st0 where "st0 = st\<lparr>heap := (heap st)(a := Map.empty), fresh := Suc a\<rparr>"
  define sts where "sts = st0 # store_symbols (source env) rnd k a symbols st0"
  define fin where "fin = (last sts)\<lparr>live_ref := a\<rparr>"
  have cs: "cycle_stores env rnd k st = sts @ (if assign_raises env then [] else [fin])"
    by (simp add: cycle_stores_def Let_def a_def st0_def sts_def fin_def)
  have ne: "live_ref st0 \<noteq> a" using alloc by (simp add: st0_def a_def)
  have l0: "live_ref st0 = live_ref st" by (simp add: st0_def)
  have v0: "reader_view st0 = reader_view st"
    using alloc by (simp add: st0_def a_def reader_view_def)
  have h0: "heap st0 a = Map.empty" by (simp add: st0_def)
  have len: "length sts = 8" by (simp add: sts_def store_symbols_length length_symbols)
  have shared: "\<forall>st' \<in> set sts. live_ref st' = live_ref st \<and> reader_view st' = reader_view st"
    using store_symbols_shared[OF ne, of "source env" rnd k symbols] l0 v0
    by (simp add: sts_def)
  have finv: "reader_view fin = fst (collect_prices (reader_view st) (source env) rnd k symbols Map.empty)"
    using store_symbols_local[OF ne, of "source env" rnd k symbols]
    by (simp add: fin_def sts_def reader_view_def v0[unfolded reader_view_def] h0)
  have A: "length (cycle_stores env rnd k st) = (if assign_raises env then 8 else 9)"
    by (simp add: cs len)
  have B: "\<forall>i < length (cycle_stores env rnd k st).
            live_ref (cycle_stores env rnd k st ! i) = (if i = 8 then fresh st else live_ref st)
          \<and> reader_view (cycle_stores env rnd k st ! i)
              = (if i = 8 then fst (refresh_cycle env rnd k (reader_view st)) else reader_view st)"
  proof (intro allI impI)
    fix i assume i: "i < length (cycle_stores env rnd k st)"
    show "live_ref (cycle_stores env rnd k st ! i) = (if i = 8 then fresh st else live_ref st)
          \<and> reader_view (cycle_stores env rnd k st ! i)
              = (if i = 8 then fst (refresh_cycle env rnd k (reader_view st)) else reader_view st)"
    proof (cases "i < 8")
      case True
      then have "cycle_stores env rnd k st ! i = sts ! i" by (simp add: cs len nth_append)
      moreover have "sts ! i \<in> set sts" using True len by simp
      ultimately show ?thesis using shared True by simp
    next
      case False
      with i A have i8: "i = 8" and nr: "\<not> assign_raises env" by (auto split: if_splits)
      have "cycle_stores env rnd k st ! i = fin" using nr by (simp add: cs i8 len nth_append)
      moreover have "live_ref fin = fresh st" by (simp add: fin_def a_def)
      moreover have "fst (refresh_cycle env rnd k (reader_view st))
                       = fst (collect_prices (reader_view st) (source env) rnd k symbols Map.empty)"
        using nr by (simp add: refresh_cycle_done)
      ultimately show ?thesis using finv i8 by simp
    qed
  qed
  have C: "\<forall>i < 8. dom (heap (cycle_stores env rnd k st ! i) (fresh st))
                     = symbol_name ` set (take i symbols)"
  proof (intro allI impI)
    fix i :: nat assume i: "i < 8"
    then have e: "cycle_stores env rnd k st ! i = sts ! i" by (simp add: cs len nth_append)
    show "dom (heap (cycle_stores env rnd k st ! i) (fresh st)) = symbol_name ` set (take i symbols)"
    proof (cases i)
      case 0
      then show ?thesis unfolding e by (simp add: sts_def st0_def a_def)
    next
      case (Suc i')
      with i have "i' < length symbols" by (simp add: length_symbols)
      from e Suc have e': "cycle_stores env rnd k st ! Suc i' = sts ! Suc i'" by simp
      from store_symbols_accumulate[OF \<open>i' < length symbols\<close>, of "source env" rnd k a st0] h0
      show ?thesis unfolding Suc e' by (simp add: sts_def a_def)
    qed
  qed
  have D: "\<not> assign_raises env \<longrightarrow>
            dom (reader_view (last (cycle_stores env rnd k st)))
              = {''RELIANCE'', ''TCS'', ''HDFCBANK'', ''INFY'', ''TATAMOTORS'', ''WIPRO'',
                 ''BAJFINANCE''}"
  proof
    assume "\<not> assign_raises env"
    then have "last (cycle_stores env rnd k st) = fin" by (simp add: cs)
    then show "dom (reader_view (last (cycle_stores env rnd k st)))
              = {''RELIANCE'', ''TCS'', ''HDFCBANK'', ''INFY'', ''TATAMOTORS'', ''WIPRO'',
                 ''BAJFINANCE''}"
      by (simp add: finv dom_collect_prices symbol_names_set)
  qed
  from A B C D show ?thesis by (intro conjI)
qed

theorem cycle_stores_atomic_witness:
  "live_ref sample_store < fresh sample_store
   \<and> length (cycle_stores failing_env half_rng 0 sample_store) = 9
   \<and> reader_view (cycle_stores failing_env half_rng 0 sample_store ! 3) = prior_snapshot
   \<and> live_ref (cycle_stores failing_env half_rng 0 sample_store ! 3) = 0
   \<and> dom (heap (cycle_stores failing_env half_rng 0 sample_store ! 3) 1)
       = {''RELIANCE'', ''TCS'', ''HDFCBANK''}
   \<and> live_ref (cycle_stores failing_env half_rng 0 sample_store ! 8) = 1
   \<and> dom (reader_view (last (cycle_stores failing_env half_rng 0 sample_store)))
       = {''RELIANCE'', ''TCS'', ''HDFCBANK'', ''INFY'', ''TATAMOTORS'', ''WIPRO'', ''BAJFINANCE''}"
proof -
  let ?cs = "cycle_stores failing_env half_rng 0 sample_store"
  have alloc: "live_ref sample_store < fresh sample_store" by (simp add: sample_store_def)
  have nr: "\<not> assign_raises failing_env" by (simp add: failing_env_def)
  note T = cycle_stores_atomic[OF alloc, of failing_env half_rng 0]
  have len: "length ?cs = 9" using T[THEN conjunct1] nr by simp
  have i3: "3 < length ?cs" and i8: "8 < length ?cs" unfolding len by simp_all
  note B3 = T[THEN conjunct2, THEN conjunct1, THEN spec, THEN mp, OF i3]
  note B8 = T[THEN conjunct2, THEN conjunct1, THEN spec, THEN mp, OF i8]
  have rv: "reader_view sample_store = prior_snapshot"
    by (simp add: reader_view_def sample_store_def)
  have lr: "live_ref sample_store = 0" and fr: "fresh sample_store = 1"
    by (simp_all add: sample_store_def)
  have v3: "reader_view (?cs ! 3) = prior_snapshot" using B3 by (simp add: rv)
  have l3: "live_ref (?cs ! 3) = 0" using B3 by (simp add: lr)
  have l8: "live_ref (?cs ! 8) = 1" using B8 by (simp add: fr)
  have names3: "symbol_name ` set (take 3 symbols) = {''RELIANCE'', ''TCS'', ''HDFCBANK''}"
    by (simp add: symbols_def symbol_name_def str_replace_def)
  have lt: "(3::nat) < 8" by simp
  have d3: "dom (heap (?cs ! 3) 1) = {''RELIANCE'', ''TCS'', ''HDFCBANK''}"
    using T[THEN conjunct2, THEN conjunct2, THEN conjunct1, THEN spec, THEN mp, OF lt]
    by (simp add: names3 fr)
  note D = T[THEN conjunct2, THEN conjunct2, THEN conjunct2, THEN mp, OF nr]
  from alloc len v3 l3 d3 l8 D show ?thesis by (intro conjI)
qed

section \<open>Properties of the price lookup\<close>

text \<open>
  Claim C10. For every symbol and every behaviour of the Quote Source,
  \<^verbatim>\<open>get_current_price\<close> returns, and never raises: an exception of either lookup gives
  \<^verbatim>\<open>'N/A'\<close>. Under the symbol with its exchange suffix it returns \<^verbatim>\<open>regularMarketPrice\<close>
  when present; else \<^verbatim>\<open>currentPrice\<close> when present and not 0; else \<^verbatim>\<open>previousClose\<close> when
  present. When none of these gives a price and the symbol looked up ends in \<^verbatim>\<open>.NS\<close>, it
  looks the secondary-exchange symbol up and returns its \<^verbatim>\<open>regularMarketPrice\<close> when
  present and not 0, else its \<^verbatim>\<open>currentPrice\<close> when present, else \<^verbatim>\<open>'N/A'\<close>; with no
  secondary lookup the result is \<^verbatim>\<open>'N/A'\<close>. (A value of 0 in a position followed by
  \<^verbatim>\<open>or\<close> counts as missing.)
\<close>

theorem get_current_price_total:
  "(\<exists>r. get_current_price src s = Inr r)
   \<and> (src (exchange_symbol s) = Inl e \<longrightarrow> get_current_price src s = Inr NA)
   \<and> (src (exchange_symbol s) = Inr nfo \<longrightarrow>
        (regularMarketPrice nfo = Some p \<longrightarrow> get_current_price src s = Inr (Price p))
      \<and> (regularMarketPrice nfo = None \<longrightarrow> currentPrice nfo = Some p \<longrightarrow> p \<noteq> 0 \<longrightarrow>
           get_current_price src s = Inr (Price p))
      \<and> (regularMarketPrice nfo = None \<longrightarrow> currentPrice nfo \<in> {None, Some 0} \<longrightarrow>
           previousClose nfo = Some p \<longrightarrow> get_current_price src s = Inr (Price p))
      \<and> (regularMarketPrice nfo = None \<longrightarrow> currentPrice nfo \<in> {None, Some 0} \<longrightarrow>
           previousClose nfo = None \<longrightarrow>
             (\<not> endswith (exchange_symbol s) ''.NS'' \<longrightarrow> get_current_price src s = Inr NA)
           \<and> (endswith (exchange_symbol s) ''.NS'' \<longrightarrow>
                (src (str_replace ''.NS'' ''.BO'' (exchange_symbol s)) = Inl e' \<longrightarrow>
                   get_current_price src s = Inr NA)
              \<and> (src (str_replace ''.NS'' ''.BO'' (exchange_symbol s)) = Inr bse \<longrightarrow>
                   (regularMarketPrice bse = Some p \<longrightarrow> p \<noteq> 0 \<longrightarrow>
                      get_current_price src s = Inr (Price p))
                 \<and> (regularMarketPrice bse \<in> {None, Some 0} \<longrightarrow> currentPrice bse = Some p \<longrightarrow>
                      get_current_price src s = Inr (Price p))
                 \<and> (regularMarketPrice bse \<in> {None, Some 0} \<longrightarrow> currentPrice bse = None \<longrightarrow>
                      get_current_price src s = Inr NA)))))"
proof -
  have total: "\<exists>r. get_current_price src s = Inr r"
    by (simp add: get_current_price_def split: sum.splits)
  show ?thesis
    apply (intro conjI impI)
    subgoal by (rule total)
    by (auto simp: get_current_price_def try_current_price_def py_or_def or_na_def Let_def
             split: sum.splits option.splits)
qed

theorem get_current_price_total_witness:
  "sample_quotes (exchange_symbol ''INFY'')
     = Inr \<lparr>regularMarketPrice = None, currentPrice = Some 0, previousClose = None\<rparr>
   \<and> endswith (exchange_symbol ''INFY'') ''.NS''
   \<and> sample_quotes (str_replace ''.NS'' ''.BO'' (exchange_symbol ''INFY''))
       = Inr \<lparr>regularMarketPrice = None, currentPrice = Some 1520, previousClose = None\<rparr>
   \<and> get_current_price sample_quotes ''INFY'' = Inr (Price 1520)"
proof -
  have x: "exchange_symbol ''INFY'' = ''INFY.NS''"
    by (simp add: exchange_symbol_def endswith_def suffix_to_prefix)
  have a: "sample_quotes (exchange_symbol ''INFY'')
     = Inr \<lparr>regularMarketPrice = None, currentPrice = Some 0, previousClose = None\<rparr>"
    by (simp add: x sample_quotes_def)
  have b: "endswith (exchange_symbol ''INFY'') ''.NS''"
    by (simp add: x endswith_def suffix_to_prefix)
  have c: "sample_quotes (str_replace ''.NS'' ''.BO'' (exchange_symbol ''INFY''))
       = Inr \<lparr>regularMarketPrice = None, currentPrice = Some 1520, previousClose = None\<rparr>"
    by (simp add: x sample_quotes_def str_replace_def)
  note T = get_current_price_total[of sample_quotes "''INFY''" _
      "\<lparr>regularMarketPrice = None, currentPrice = Some 0, previousClose = None\<rparr>" 1520 _
      "\<lparr>regularMarketPrice = None, currentPrice = Some 1520, previousClose = None\<rparr>"]
  from T a b c have "get_current_price sample_quotes ''INFY'' = Inr (Price 1520)" by simp
  with a b c show ?thesis by (intro conjI)
qed

section \<open>Properties of the recommendation queries\<close>

lemma company_names_wellformed:
  assumes "list_all2 (\<lambda>item n. \<exists>ikvs. item = JObj ikvs \<and> map_of ikvs ''company_name'' = Some (JStr n))
             items names"
  shows "company_names items = Inr (map JStr names)"
  using assms
  by (induction items names rule: list_all2_induct) (auto simp: bind_e_def getitem_def)

text \<open>
  Claim C3, as the code has it. A response whose status is not 200 gives the empty list
  from both functions. A 200 response whose payload has \<^verbatim>\<open>trending_stocks\<close> with the
  list of the function, every item a dict with a string \<^verbatim>\<open>company_name\<close>, gives these
  names in the payload's order. Nothing in the module catches an exception: a failing
  request raises, a 200 response whose body is not JSON raises, and one whose payload
  lacks \<^verbatim>\<open>trending_stocks\<close> or the list's key raises \<^verbatim>\<open>KeyError\<close>.
\<close>

theorem recommendations_outcomes:
  "(status_code \<noteq> 200 \<longrightarrow>
      get_stockrecommendations (Response status_code body) = Inr []
    \<and> get_sellrecommendations (Response status_code body) = Inr [])
   \<and> get_stockrecommendations ConnectionFails = Inl RequestException
   \<and> get_sellrecommendations ConnectionFails = Inl RequestException
   \<and> get_stockrecommendations (Response 200 None) = Inl JSONDecodeError
   \<and> get_sellrecommendations (Response 200 None) = Inl JSONDecodeError
   \<and> (map_of kvs ''trending_stocks'' = None \<longrightarrow>
        get_stockrecommendations (Response 200 (Some (JObj kvs))) = Inl KeyError
      \<and> get_sellrecommendations (Response 200 (Some (JObj kvs))) = Inl KeyError)
   \<and> (map_of kvs ''trending_stocks'' = Some (JObj ts) \<longrightarrow>
        (map_of ts ''top_gainers'' = None \<longrightarrow>
           get_stockrecommendations (Response 200 (Some (JObj kvs))) = Inl KeyError)
      \<and> (map_of ts ''top_losers'' = None \<longrightarrow>
           get_sellrecommendations (Response 200 (Some (JObj kvs))) = Inl KeyError)
      \<and> (map_of ts ''top_gainers'' = Some (JArr items) \<longrightarrow>
         list_all2 (\<lambda>item n. \<exists>ikvs. item = JObj ikvs \<and> map_of ikvs ''company_name'' = Some (JStr n))
           items names \<longrightarrow>
           get_stockrecommendations (Response 200 (Some (JObj kvs))) = Inr (map JStr names))
      \<and> (map_of ts ''top_losers'' = Some (JArr items) \<longrightarrow>
         list_all2 (\<lambda>item n. \<exists>ikvs. item = JObj ikvs \<and> map_of ikvs ''company_name'' = Some (JStr n))
           items names \<longrightarrow>
           get_sellrecommendations (Response 200 (Some (JObj kvs))) = Inr (map JStr names)))"
  by (auto simp: get_stockrecommendations_def get_sellrecommendations_def recommendations_of_def
        bind_e_def getitem_def py_iter_def company_names_wellformed)

theorem recommendations_outcomes_witness:
  "(503::nat) \<noteq> 200
   \<and> get_stockrecommendations (Response 503 None) = Inr []
   \<and> get_sellrecommendations (Response 503 None) = Inr []
   \<and> get_stockrecommendations (Response 200 (Some sample_payload)) = Inr [JStr ''Tata Steel'']
   \<and> get_sellrecommendations (Response 200 (Some sample_payload)) = Inr []"
proof -
  let ?ts = "[(''top_gainers'', JArr [JObj [(''company_name'', JStr ''Tata Steel'')]]),
              (''top_losers'', JArr [])]"
  let ?kvs = "[(''trending_stocks'', JObj ?ts)]"
  have p: "sample_payload = JObj ?kvs" by (simp add: sample_payload_def)
  have a: "(503::nat) \<noteq> 200" by simp
  have k: "map_of ?kvs ''trending_stocks'' = Some (JObj ?ts)" by simp
  have g: "map_of ?ts ''top_gainers'' = Some (JArr [JObj [(''company_name'', JStr ''Tata Steel'')]])"
    by simp
  have l: "map_of ?ts ''top_losers'' = Some (JArr [])" by simp
  have wg: "list_all2 (\<lambda>item n. \<exists>ikvs. item = JObj ikvs \<and> map_of ikvs ''company_name'' = Some (JStr n))
              [JObj [(''company_name'', JStr ''Tata Steel'')]] [''Tata Steel'']"
    by simp
  have wl: "list_all2 (\<lambda>item n. \<exists>ikvs. item = JObj ikvs \<and> map_of ikvs ''company_name'' = Some (JStr n))
              [] []"
    by simp
  note T1 = recommendations_outcomes[where status_code = 503 and body = None,
              THEN conjunct1, THEN mp, OF a]
  note T2 = recommendations_outcomes[where kvs = ?kvs and ts = ?ts
              and items = "[JObj [(''company_name'', JStr ''Tata Steel'')]]"
              and names = "[''Tata Steel'']"]
  note T3 = recommendations_outcomes[where kvs = ?kvs and ts = ?ts
              and items = "[]" and names = "[]"]
  have s1: "get_stockrecommendations (Response 200 (Some sample_payload)) = Inr [JStr ''Tata Steel'']"
    using T2 k g wg unfolding p by simp
  have s2: "get_sellrecommendations (Response 200 (Some sample_payload)) = Inr []"
    using T3 k l wl unfolding p by simp
  from a T1 s1 s2 show ?thesis by simp
qed

text \<open>
  The claim as stated fails: a failing request and a 200 response whose JSON lacks
  \<^verbatim>\<open>trending_stocks\<close> raise instead of giving an empty list.
\<close>

theorem recommendations_outcomes_counterexample:
  "get_stockrecommendations ConnectionFails = Inl RequestException
   \<and> get_sellrecommendations ConnectionFails = Inl RequestException
   \<and> get_stockrecommendations (Response 200 (Some empty_payload)) = Inl KeyError
   \<and> get_sellrecommendations (Response 200 (Some empty_payload)) = Inl KeyError"
  by (simp add: get_stockrecommendations_def get_sellrecommendations_def recommendations_of_def
      bind_e_def getitem_def empty_payload_def)

section \<open>Properties of the chat router\<close>

subsection \<open>Classification\<close>

lemma list_ex_set: "list_ex P xs = (\<exists>x \<in> set xs. P x)"
  by (simp add: list_ex_iff)

text \<open>
  Claim C6. The \<^verbatim>\<open>if/elif\<close> chain selects, for every input, the first intent of the order
  ChartLookup, BuyRecommendation, SellRecommendation, MarketSummary, NewsQuery, Fallback
  whose trigger holds of the lower-cased input. The input "show me the buy chart"
  triggers both the first and the second rule; it is classified as ChartLookup, and in
  every surroundings the turn consists of the one chart lookup for the candidate BUY and
  its response: the Recommendation Source is not consulted (the turn returns even where
  every request would fail) and nothing of the buy branch is shown.
\<close>

theorem classify_first_match:
  "find (\<lambda>i. spec_trigger i (lower s)) spec_priority = Some (classify s)
   \<and> spec_trigger ChartLookup (lower ''show me the buy chart'')
   \<and> spec_trigger BuyRecommendation (lower ''show me the buy chart'')
   \<and> classify ''show me the buy chart'' = ChartLookup
   \<and> respond env ''show me the buy chart'' =
       Inr (if chart_ok env ''BUY''
            then ''Here's the TradingView chart for BUY. Check the left panel.''
            else ''Couldn't detect a valid stock symbol. Try something like 'Show RELIANCE chart'.'',
            [Chart ''BUY''])"
proof (intro conjI)
  show "find (\<lambda>i. spec_trigger i (lower s)) spec_priority = Some (classify s)"
    by (simp add: spec_priority_def classify_def Let_def list_ex_set)
  show "spec_trigger ChartLookup (lower ''show me the buy chart'')"
    by (simp add: lower_def lower_char_def)
  show "spec_trigger BuyRecommendation (lower ''show me the buy chart'')"
    by (simp add: lower_def lower_char_def)
  show "classify ''show me the buy chart'' = ChartLookup"
    by (simp add: classify_def lower_def lower_char_def)
  show "respond env ''show me the buy chart'' =
       Inr (if chart_ok env ''BUY''
            then ''Here's the TradingView chart for BUY. Check the left panel.''
            else ''Couldn't detect a valid stock symbol. Try something like 'Show RELIANCE chart'.'',
            [Chart ''BUY''])"
    by (simp add: respond_def classify_def lower_def lower_char_def upper_def upper_char_def
        split_def is_space_def strip_def)
qed

theorem classify_first_match_witness:
  "find (\<lambda>i. spec_trigger i (lower ''Sell today'')) spec_priority = Some SellRecommendation
   \<and> respond offline_env ''show me the buy chart'' =
       Inr (''Couldn't detect a valid stock symbol. Try something like 'Show RELIANCE chart'.'',
            [Chart ''BUY''])"
proof -
  have c: "classify ''Sell today'' = SellRecommendation"
    by (simp add: classify_def lower_def lower_char_def)
  have o: "\<not> chart_ok offline_env ''BUY''" by (simp add: offline_env_def)
  from classify_first_match[of "''Sell today''" offline_env] c o show ?thesis by simp
qed

subsection \<open>The buy and sell branches\<close>

text \<open>
  Claim C4, evaluated at an input where it fails. The input "buy" is classified as
  BuyRecommendation. With a Recommendation Source that returns the gainer Tata Steel, the
  item is shown by \<^verbatim>\<open>st.success\<close>, and the response still is the no-picks message: the
  \<^verbatim>\<open>else\<close> of lines 257 and 258 belongs to the \<^verbatim>\<open>for\<close> loop and runs after it.
\<close>

theorem buy_branch_always_no_picks:
  "classify ''buy'' = BuyRecommendation
   \<and> get_stockrecommendations (http trending_env 1) = Inr [JStr ''Tata Steel'']
   \<and> respond trending_env ''buy'' =
       Inr (''No top picks found at the moment. Try again later.'',
            [Markdown ''### Today's Stock Picks'', Success (JStr ''Tata Steel'')])"
  by (simp add: respond_def classify_def lower_def lower_char_def trending_env_def
      get_stockrecommendations_def recommendations_of_def bind_e_def getitem_def
      py_iter_def sample_payload_def)

text \<open>
  Claim C7, evaluated at its input. "sell today" is classified as SellRecommendation.
  With an empty loser list the turn does not raise, and its response is the empty string:
  the branch of lines 261 to 265 never assigns \<open>response\<close>, so there is no empty-result
  message, and the assistant entry appended to the history has empty content.
\<close>

theorem sell_branch_empty_response:
  "classify ''sell today'' = SellRecommendation
   \<and> get_sellrecommendations (http quiet_env 0) = Inr []
   \<and> respond quiet_env ''sell today'' = Inr ([], [])
   \<and> process_utterance quiet_env [] ''sell today'' =
       (None, [\<lparr>role = ''user'', content = ''sell today''\<rparr>,
               \<lparr>role = ''assistant'', content = []\<rparr>], [])"
  by (simp add: process_utterance_def respond_def classify_def lower_def lower_char_def
      quiet_env_def get_sellrecommendations_def recommendations_of_def bind_e_def getitem_def
      py_iter_def no_lists_payload_def)

subsection \<open>The market summary\<close>

text \<open>
  With gainers returned, the loop of lines 275 and 276 subscripts a company name, which is
  a string, with \<^verbatim>\<open>'symbol'\<close>: the turn raises \<^verbatim>\<open>TypeError\<close>.
\<close>

lemma market_summary_items_raise:
  "get_stockrecommendations (http trending_env 0) = Inr [JStr ''Tata Steel'']
   \<and> respond trending_env ''market summary'' = Inl TypeError"
  by (simp add: respond_def classify_def lower_def lower_char_def trending_env_def
      get_stockrecommendations_def get_sellrecommendations_def recommendations_of_def
      bind_e_def getitem_def py_iter_def sample_payload_def)

text \<open>
  Claim C5, as the code has it by design. For an input classified as MarketSummary the
  router makes one gainers call and then one losers call. When either call raises, the
  exception leaves the router: nothing catches it. When both return and both lists are
  empty, the response is the header followed by "No gainers reported." and "No losers
  reported.", and nothing is raised; an empty gainers list gives its "No gainers
  reported." ahead of whatever the losers half does. (What the branch does with a
  non-empty list is left out here.)
\<close>

theorem market_summary_response:
  assumes "classify s = MarketSummary"
  shows "(get_stockrecommendations (http env 0) = Inl e \<longrightarrow> respond env s = Inl e)
       \<and> (get_stockrecommendations (http env 0) = Inr buys \<longrightarrow>
            get_sellrecommendations (http env 1) = Inl e \<longrightarrow> respond env s = Inl e)
       \<and> (get_stockrecommendations (http env 0) = Inr [] \<longrightarrow>
            get_sellrecommendations (http env 1) = Inr [] \<longrightarrow>
            respond env s =
              Inr ([CHR 0xF0, CHR 0x9F, CHR 0x93, CHR 0x8A] @ '' **Market Summary Today:**''
                     @ newline @ newline @ ''No gainers reported.'' @ newline
                     @ newline @ ''No losers reported.'' @ newline, []))
       \<and> (get_stockrecommendations (http env 0) = Inr [] \<longrightarrow>
            get_sellrecommendations (http env 1) = Inr sells \<longrightarrow>
            respond env s = Inr (r, shown) \<longrightarrow>
            prefix ([CHR 0xF0, CHR 0x9F, CHR 0x93, CHR 0x8A] @ '' **Market Summary Today:**''
                     @ newline @ newline @ ''No gainers reported.'' @ newline
                     @ newline) r)"
  using assms
  by (auto simp: respond_def bind_e_def split: if_splits sum.splits)

theorem market_summary_response_witness:
  "classify ''market summary'' = MarketSummary
   \<and> get_stockrecommendations (http quiet_env 0) = Inr []
   \<and> get_sellrecommendations (http quiet_env 1) = Inr []
   \<and> respond quiet_env ''market summary'' =
        Inr ([CHR 0xF0, CHR 0x9F, CHR 0x93, CHR 0x8A] @ '' **Market Summary Today:**''
               @ newline @ newline @ ''No gainers reported.'' @ newline
               @ newline @ ''No losers reported.'' @ newline, [])"
proof -
  have c: "classify ''market summary'' = MarketSummary"
    by (simp add: classify_def lower_def lower_char_def)
  have g: "get_stockrecommendations (http quiet_env 0) = Inr []"
    by (simp add: quiet_env_def get_stockrecommendations_def recommendations_of_def bind_e_def
        getitem_def py_iter_def no_lists_payload_def)
  have l: "get_sellrecommendations (http quiet_env 1) = Inr []"
    by (simp add: quiet_env_def get_sellrecommendations_def recommendations_of_def bind_e_def
        getitem_def py_iter_def no_lists_payload_def)
  note T = market_summary_response[OF c, of quiet_env, THEN conjunct2, THEN conjunct2,
             THEN conjunct1, THEN mp, OF g, THEN mp, OF l]
  from c g l T show ?thesis by (intro conjI)
qed

text \<open>
  The claim as stated fails: with a Recommendation Source that cannot be reached, the
  gainers call raises and the exception leaves the router.
\<close>

theorem market_summary_response_counterexample:
  "classify ''market summary'' = MarketSummary
   \<and> respond offline_env ''market summary'' = Inl RequestException"
  by (simp add: respond_def classify_def lower_def lower_char_def offline_env_def
      get_stockrecommendations_def recommendations_of_def bind_e_def)

subsection \<open>The chat history\<close>

lemma respond_sell_quiet: "respond quiet_env ''sell today'' = Inr ([], [])"
  by (simp add: respond_def classify_def lower_def lower_char_def quiet_env_def
      get_sellrecommendations_def recommendations_of_def bind_e_def getitem_def
      py_iter_def no_lists_payload_def)

lemma respond_buy_trending:
  "respond trending_env ''buy'' =
     Inr (''No top picks found at the moment. Try again later.'',
          [Markdown ''### Today's Stock Picks'', Success (JStr ''Tata Steel'')])"
  by (simp add: respond_def classify_def lower_def lower_char_def trending_env_def
      get_stockrecommendations_def recommendations_of_def bind_e_def getitem_def
      py_iter_def sample_payload_def)

lemma respond_buy_offline: "respond offline_env ''buy'' = Inl RequestException"
  by (simp add: respond_def classify_def lower_def lower_char_def offline_env_def
      get_stockrecommendations_def recommendations_of_def bind_e_def)

lemma process_utterance_prefix:
  "prefix h (fst (snd (process_utterance env h u)))"
  by (auto simp: process_utterance_def Let_def split: sum.splits prod.splits)

lemma process_utterance_length:
  "length (fst (snd (process_utterance env h u))) \<le> length h + 2"
  by (auto simp: process_utterance_def Let_def split: sum.splits prod.splits)

lemma process_utterance_completes:
  "u \<noteq> [] \<Longrightarrow> respond env u = Inr r \<Longrightarrow>
   fst (snd (process_utterance env h u))
     = h @ [\<lparr>role = ''user'', content = u\<rparr>, \<lparr>role = ''assistant'', content = fst r\<rparr>]"
  by (auto simp: process_utterance_def Let_def split: sum.splits prod.splits)

lemma process_utterance_raises:
  "u \<noteq> [] \<Longrightarrow> respond env u = Inl e \<Longrightarrow>
   fst (snd (process_utterance env h u)) = h @ [\<lparr>role = ''user'', content = u\<rparr>]"
  by (simp add: process_utterance_def Let_def)

lemma process_utterance_users:
  "[x \<leftarrow> fst (snd (process_utterance env h u)). role x = ''user'']
     = [x \<leftarrow> h. role x = ''user''] @ (if u = [] then [] else [\<lparr>role = ''user'', content = u\<rparr>])"
  by (auto simp: process_utterance_def Let_def split: sum.splits prod.splits)

lemma session_prefix: "prefix h (session turns h)"
proof (induction turns arbitrary: h)
  case Nil
  then show ?case by simp
next
  case (Cons t turns)
  obtain env u where t: "t = (env, u)" by (cases t)
  have "prefix h (fst (snd (process_utterance env h u)))" by (rule process_utterance_prefix)
  also have "prefix \<dots> (session turns (fst (snd (process_utterance env h u))))" by (rule Cons.IH)
  finally show ?case by (simp add: t)
qed

lemma session_length: "length (session turns h) \<le> length h + 2 * length turns"
proof (induction turns arbitrary: h)
  case Nil
  then show ?case by simp
next
  case (Cons t turns)
  obtain env u where t: "t = (env, u)" by (cases t)
  have "length (session turns (fst (snd (process_utterance env h u))))
          \<le> length (fst (snd (process_utterance env h u))) + 2 * length turns"
    by (rule Cons.IH)
  with process_utterance_length[of env h u] show ?case by (simp add: t)
qed

lemma session_users:
  "[x \<leftarrow> session turns h. role x = ''user'']
     = [x \<leftarrow> h. role x = ''user'']
       @ map (\<lambda>u. \<lparr>role = ''user'', content = u\<rparr>) [u \<leftarrow> map snd turns. u \<noteq> []]"
proof (induction turns arbitrary: h)
  case Nil
  then show ?case by simp
next
  case (Cons t turns)
  obtain env u where t: "t = (env, u)" by (cases t)
  show ?case
    unfolding t session.simps Cons.IH process_utterance_users by simp
qed

lemma session_completes:
  assumes "\<forall>(env, u) \<in> set turns. u \<noteq> [] \<and> (\<exists>r. respond env u = Inr r)"
  shows "session turns h =
           h @ concat (map (\<lambda>(env, u). [\<lparr>role = ''user'', content = u\<rparr>,
                                        \<lparr>role = ''assistant'',
                                         content = fst (projr (respond env u))\<rparr>]) turns)"
  using assms
proof (induction turns arbitrary: h)
  case Nil
  then show ?case by simp
next
  case (Cons t turns)
  obtain env u where t: "t = (env, u)" by (cases t)
  from Cons.prems t obtain r where u: "u \<noteq> []" and r: "respond env u = Inr r" by auto
  from Cons.prems have rest: "\<forall>(env, u) \<in> set turns. u \<noteq> [] \<and> (\<exists>r. respond env u = Inr r)"
    by simp
  show ?case
    unfolding t session.simps process_utterance_completes[OF u r] Cons.IH[OF rest]
    by (simp add: r)
qed

text \<open>
  Claim C8, as the code has it. In a session of any turns the history only grows at its
  end: the earlier history is a prefix of the later one, so no entry is modified or
  removed. Its user entries are exactly the non-empty inputs, in arrival order. A turn
  whose branch raises appends the user entry alone. When every turn has a non-empty
  input and completes, each turn appends its user entry followed by one assistant entry
  holding the response, so that \<open>N\<close> turns add exactly \<open>2N\<close> entries; in general they add at
  most \<open>2N\<close>.
\<close>

theorem session_append_only:
  "prefix h (session turns h)
   \<and> length (session turns h) \<le> length h + 2 * length turns
   \<and> [x \<leftarrow> session turns h. role x = ''user'']
       = [x \<leftarrow> h. role x = ''user'']
         @ map (\<lambda>u. \<lparr>role = ''user'', content = u\<rparr>) [u \<leftarrow> map snd turns. u \<noteq> []]
   \<and> ((\<forall>(env, u) \<in> set turns. u \<noteq> [] \<and> (\<exists>r. respond env u = Inr r)) \<longrightarrow>
        session turns h =
          h @ concat (map (\<lambda>(env, u). [\<lparr>role = ''user'', content = u\<rparr>,
                                       \<lparr>role = ''assistant'',
                                        content = fst (projr (respond env u))\<rparr>]) turns)
      \<and> length (session turns h) = length h + 2 * length turns)
   \<and> (u \<noteq> [] \<longrightarrow> respond env u = Inl e \<longrightarrow>
        session [(env, u)] h = h @ [\<lparr>role = ''user'', content = u\<rparr>])"
proof (intro conjI impI)
  show "prefix h (session turns h)" by (rule session_prefix)
  show "length (session turns h) \<le> length h + 2 * length turns" by (rule session_length)
  show "[x \<leftarrow> session turns h. role x = ''user'']
       = [x \<leftarrow> h. role x = ''user'']
         @ map (\<lambda>u. \<lparr>role = ''user'', content = u\<rparr>) [u \<leftarrow> map snd turns. u \<noteq> []]"
    by (rule session_users)
next
  assume a: "\<forall>(env, u) \<in> set turns. u \<noteq> [] \<and> (\<exists>r. respond env u = Inr r)"
  show c: "session turns h =
          h @ concat (map (\<lambda>(env, u). [\<lparr>role = ''user'', content = u\<rparr>,
                                       \<lparr>role = ''assistant'',
                                        content = fst (projr (respond env u))\<rparr>]) turns)"
    using a by (rule session_completes)
  have "length (concat (map (\<lambda>(env, u). [\<lparr>role = ''user'', content = u\<rparr>,
                                       \<lparr>role = ''assistant'',
                                        content = fst (projr (respond env u))\<rparr>]) turns))
          = 2 * length turns"
    by (induction turns) (auto split: prod.splits)
  then show "length (session turns h) = length h + 2 * length turns"
    unfolding c by simp
next
  assume "u \<noteq> []" and "respond env u = Inl e"
  then show "session [(env, u)] h = h @ [\<lparr>role = ''user'', content = u\<rparr>]"
    by (simp add: process_utterance_raises)
qed

theorem session_append_only_witness:
  "session [(quiet_env, ''sell today''), (trending_env, ''buy'')] []
     = [\<lparr>role = ''user'', content = ''sell today''\<rparr>,
        \<lparr>role = ''assistant'', content = []\<rparr>,
        \<lparr>role = ''user'', content = ''buy''\<rparr>,
        \<lparr>role = ''assistant'',
         content = ''No top picks found at the moment. Try again later.''\<rparr>]
   \<and> length (session [(quiet_env, ''sell today''), (trending_env, ''buy'')] []) = 4"
proof -
  let ?turns = "[(quiet_env, ''sell today''), (trending_env, ''buy'')]"
  have a: "\<forall>(env, u) \<in> set ?turns. u \<noteq> [] \<and> (\<exists>r. respond env u = Inr r)"
    by (simp add: respond_sell_quiet respond_buy_trending)
  note T = session_append_only[of "[]" ?turns, THEN conjunct2, THEN conjunct2, THEN conjunct2,
             THEN conjunct1, THEN mp, OF a]
  from T show ?thesis by (simp add: respond_sell_quiet respond_buy_trending)
qed

text \<open>
  The claim as stated fails: when the Recommendation Source cannot be reached, the turn
  "buy" raises after the user entry was appended, and the history of this one turn has
  one entry, not two.
\<close>

theorem session_append_only_counterexample:
  "session [(offline_env, ''buy'')] [] = [\<lparr>role = ''user'', content = ''buy''\<rparr>]
   \<and> length (session [(offline_env, ''buy'')] []) \<noteq> 2 * length [(offline_env, ''buy'')]"
  by (simp add: process_utterance_def respond_buy_offline)

end
